theory Spec2Isabelle
  imports Main
begin

section \<open>Connector namespace service: data model\<close>

text \<open>
  The service of \<^verbatim>\<open>connector_namespaces.go\<close> works on a relational store through
  an object-relational mapper. The store is modelled as a record of tables, each table
  a list of rows. A nullable column is an \<open>option\<close>; a timestamp is an integer
  (nanoseconds). The store is in memory and total: a statement never fails for a
  reason of the driver, so the only store error that occurs is the one \<^verbatim>\<open>First\<close>
  reports when no row is selected.

  Every entity that embeds \<^verbatim>\<open>db.Model\<close> has the columns \<^verbatim>\<open>id\<close> (its primary key)
  and \<^verbatim>\<open>deleted_at\<close> (the soft-deletion marker). A statement built from such an
  entity (\<^verbatim>\<open>Model(&T{})\<close>, \<^verbatim>\<open>First(&t)\<close>, \<^verbatim>\<open>Updates(&T{...})\<close>, \<^verbatim>\<open>Delete(&T{})\<close>)
  sees only the rows whose \<^verbatim>\<open>deleted_at\<close> is null, and \<^verbatim>\<open>Delete\<close> sets the marker
  instead of removing the row. A statement built with \<^verbatim>\<open>Table("...")\<close> or \<^verbatim>\<open>Raw\<close> has
  no such scope, which is why those of the source write \<^verbatim>\<open>deleted_at IS NULL\<close>
  themselves.
\<close>

type_synonym time = int

datatype ServiceError =
    GeneralError
  | NotFound
  | Unauthorized
  | InsufficientQuotaError
  | FailedToCheckQuota

record ConnectorNamespaceAnnotation =
  ann_NamespaceId :: string
  ann_Key :: string
  ann_Value :: string

text \<open>
  \<^verbatim>\<open>dbapi.ConnectorNamespace\<close>: the columns the service reads and writes, and the
  relations \<^verbatim>\<open>Annotations\<close>, \<^verbatim>\<open>TenantUser\<close> and \<^verbatim>\<open>TenantOrganisation\<close>, which are
  filled only by \<^verbatim>\<open>Preload\<close> (a tenant relation is represented by the key of the
  related row).
\<close>

record ConnectorNamespace =
  ns_ID :: string
  ns_DeletedAt :: "time option"
  ns_ClusterId :: string
  ns_TenantUserId :: "string option"
  ns_TenantOrganisationId :: "string option"
  ns_Expiration :: "time option"
  ns_Phase :: string
  ns_Annotations :: "ConnectorNamespaceAnnotation list"
  ns_TenantUser :: "string option"
  ns_TenantOrganisation :: "string option"

record ConnectorCluster =
  cl_ID :: string
  cl_DeletedAt :: "time option"
  cl_OrganisationId :: string

record Connector =
  con_ID :: string
  con_DeletedAt :: "time option"
  con_NamespaceId :: "string option"
  con_DesiredState :: string

record ConnectorStatus =
  cs_ID :: string
  cs_DeletedAt :: "time option"
  cs_NamespaceId :: "string option"
  cs_Phase :: string

record ConnectorDeploymentStatus =
  cds_ID :: string
  cds_DeletedAt :: "time option"
  cds_Phase :: string

text \<open>
  Modelled from the spec: the declaration of a deployment in \<^verbatim>\<open>dbapi\<close> is not in the
  sources at hand. By the specification a deployment status is a per-deployment phase
  record, and a connector has any number of them: a deployment belongs to one connector,
  and the status row of a deployment has the key of the deployment.
\<close>

record ConnectorDeployment =
  cd_ID :: string
  cd_ConnectorID :: string

record Store =
  connector_namespaces :: "ConnectorNamespace list"
  connector_namespace_annotations :: "ConnectorNamespaceAnnotation list"
  connector_tenant_users :: "string list"
  connector_tenant_organisations :: "string list"
  connector_clusters :: "ConnectorCluster list"
  connectors :: "Connector list"
  connector_statuses :: "ConnectorStatus list"
  connector_deployments :: "ConnectorDeployment list"
  connector_deployment_statuses :: "ConnectorDeploymentStatus list"

subsection \<open>Constants of the \<^verbatim>\<open>dbapi\<close> package\<close>

text \<open>
  Modelled from the spec: the phase and desired-state constants of \<^verbatim>\<open>dbapi\<close> are not
  in the sources at hand; the specification names their values "deleting", "deleted"
  and "unassigned".
\<close>

definition ConnectorNamespacePhaseDeleting :: string where
  "ConnectorNamespacePhaseDeleting = ''deleting''"

definition ConnectorStatusPhaseDeleting :: string where
  "ConnectorStatusPhaseDeleting = ''deleting''"

definition ConnectorDeleted :: string where
  "ConnectorDeleted = ''deleted''"

definition ConnectorUnassigned :: string where
  "ConnectorUnassigned = ''unassigned''"

subsection \<open>Configuration\<close>

text \<open>
  \<^verbatim>\<open>ConnectorsConfig\<close>: the fields the service reads. The service reads the policy
  switch of cascading deletion as \<^verbatim>\<open>ConnectorEnableUnassignedConnectors\<close> ("cascade
  delete is disabled"); it is set once, from the command line, for the whole process.
\<close>

record ConnectorsConfig =
  ConnectorEvalDuration :: int
  ConnectorEvalOrganizations :: "string list"
  ConnectorEnableUnassignedConnectors :: bool

record NamespaceQuota =
  Connectors :: int

record ConnectorsQuotaConfig =
  EvalNamespaceQuotaProfile :: string
  namespaceQuotaMap :: "string \<rightharpoonup> NamespaceQuota"

text \<open>
  Modelled from the spec: \<^verbatim>\<open>ConnectorsQuotaConfig.GetNamespaceQuota\<close> is not in the
  sources at hand. The quota profile resolver "accepts a profile name, returns a
  \<open>{maxConnectors}\<close> policy record (zero/absent = unlimited) plus a found/not-found
  signal"; for a name it does not know the record is the zero value.
\<close>

definition GetNamespaceQuota :: "ConnectorsQuotaConfig \<Rightarrow> string \<Rightarrow> NamespaceQuota \<times> bool" where
  "GetNamespaceQuota c profileName =
     (case namespaceQuotaMap c profileName of
        Some quota \<Rightarrow> (quota, True)
      | None \<Rightarrow> (\<lparr>Connectors = 0\<rparr>, False))"

section \<open>Eval namespace allocator\<close>

text \<open>
  \<^verbatim>\<open>rand.Intn(n)\<close> returns some number below \<open>n\<close>; the model takes the random source
  as a number \<open>seed\<close> and reduces it modulo \<open>n\<close>, so that every outcome of the call is
  the outcome for some seed.
\<close>

definition Intn :: "nat \<Rightarrow> nat \<Rightarrow> nat" where
  "Intn seed n = seed mod n"

text \<open>
  The loop over \<^verbatim>\<open>request.Annotations\<close>: the first annotation with the profile key
  takes the evaluation profile as its value and the loop stops; the flag tells whether
  there was one.
\<close>

fun setProfile :: "string \<Rightarrow> string \<Rightarrow> ConnectorNamespaceAnnotation list
    \<Rightarrow> ConnectorNamespaceAnnotation list \<times> bool" where
  "setProfile key profile [] = ([], False)"
| "setProfile key profile (ann # anns) =
     (if ann_Key ann = key
      then ((if ann_Value ann \<noteq> profile then ann\<lparr>ann_Value := profile\<rparr> else ann) # anns, True)
      else (case setProfile key profile anns of (anns', found) \<Rightarrow> (ann # anns', found)))"

definition evalClusters :: "ConnectorsConfig \<Rightarrow> Store \<Rightarrow> string list" where
  "evalClusters cfg s =
     map cl_ID (filter (\<lambda>c. cl_DeletedAt c = None \<and>
                            cl_OrganisationId c \<in> set (ConnectorEvalOrganizations cfg))
                       (connector_clusters s))"

definition SetEvalClusterId :: "ConnectorsConfig \<Rightarrow> ConnectorsQuotaConfig \<Rightarrow> string \<Rightarrow> time \<Rightarrow> nat
    \<Rightarrow> Store \<Rightarrow> ConnectorNamespace \<Rightarrow> ServiceError + ConnectorNamespace" where
  "SetEvalClusterId cfg quotaConfig AnnotationProfileKey now seed s request =
     (let availableClusters = evalClusters cfg s;
          numOrgClusters = length availableClusters
      in if numOrgClusters = 0 then Inl Unauthorized
         else
           let request1 =
                 (if numOrgClusters = 1
                  then request\<lparr>ns_ClusterId := availableClusters ! 0\<rparr>
                  else request\<lparr>ns_ClusterId := availableClusters ! Intn seed numOrgClusters\<rparr>);
               expiry = now + ConnectorEvalDuration cfg;
               request2 = request1\<lparr>ns_Expiration := Some expiry\<rparr>
           in case setProfile AnnotationProfileKey (EvalNamespaceQuotaProfile quotaConfig)
                     (ns_Annotations request2) of
                (anns, found) \<Rightarrow>
                  Inr (if \<not> found
                       then request2\<lparr>ns_Annotations := anns @
                              [\<lparr>ann_NamespaceId = ns_ID request2,
                                ann_Key = AnnotationProfileKey,
                                ann_Value = EvalNamespaceQuotaProfile quotaConfig\<rparr>]\<rparr>
                       else request2\<lparr>ns_Annotations := anns\<rparr>))"

section \<open>Namespace lifecycle manager: \<^verbatim>\<open>Get\<close>\<close>

text \<open>
  \<^verbatim>\<open>First(result)\<close> selects by the primary key held in \<open>result\<close>; with the zero value
  of the key (the empty string) it has no condition on the key and selects the first
  live row (the rows of a table are listed in the order of their keys). Whatever error
  \<^verbatim>\<open>First\<close> reports, \<^verbatim>\<open>Get\<close> returns \<^verbatim>\<open>errors.GeneralError\<close>.
\<close>

definition preload :: "Store \<Rightarrow> ConnectorNamespace \<Rightarrow> ConnectorNamespace" where
  "preload s n =
     n\<lparr>ns_Annotations :=
         filter (\<lambda>a. ann_NamespaceId a = ns_ID n) (connector_namespace_annotations s),
       ns_TenantUser :=
         (case ns_TenantUserId n of
            None \<Rightarrow> None
          | Some u \<Rightarrow> if u \<in> set (connector_tenant_users s) then Some u else None),
       ns_TenantOrganisation :=
         (case ns_TenantOrganisationId n of
            None \<Rightarrow> None
          | Some orgId \<Rightarrow>
              if orgId \<in> set (connector_tenant_organisations s) then Some orgId else None)\<rparr>"

definition Get :: "Store \<Rightarrow> string \<Rightarrow> ServiceError + ConnectorNamespace" where
  "Get s namespaceID =
     (case find (\<lambda>n. ns_DeletedAt n = None \<and> (namespaceID = [] \<or> ns_ID n = namespaceID))
                (connector_namespaces s) of
        None \<Rightarrow> Inl GeneralError
      | Some n \<Rightarrow> Inr (preload s n))"

section \<open>Eviction\<close>

text \<open>
  \<^verbatim>\<open>Model(&dbapi.ConnectorNamespace{}).Where("id IN ?", ids).Update("status_phase", p)\<close>,
  the statement that \<^verbatim>\<open>GetExpiredNamespaceIds\<close> and the cascading deletion share.
\<close>

definition updateNamespacePhase :: "string list \<Rightarrow> string \<Rightarrow> ConnectorNamespace list
    \<Rightarrow> ConnectorNamespace list" where
  "updateNamespacePhase ids p rows =
     map (\<lambda>n. if ns_DeletedAt n = None \<and> ns_ID n \<in> set ids then n\<lparr>ns_Phase := p\<rparr> else n) rows"

definition expired :: "time \<Rightarrow> ConnectorNamespace \<Rightarrow> bool" where
  "expired now n = (case ns_Expiration n of None \<Rightarrow> False | Some e \<Rightarrow> e < now)"

definition GetExpiredNamespaceIds :: "time \<Rightarrow> Store
    \<Rightarrow> (string list \<times> ServiceError option) \<times> Store" where
  "GetExpiredNamespaceIds now s =
     (let result = map ns_ID (filter (\<lambda>n. ns_DeletedAt n = None \<and> expired now n)
                                     (connector_namespaces s))
      in ((result, None),
          s\<lparr>connector_namespaces :=
               updateNamespacePhase result ConnectorNamespacePhaseDeleting
                 (connector_namespaces s)\<rparr>))"

section \<open>Cascading deletion\<close>

text \<open>
  Modelled from the spec: \<^verbatim>\<open>db.AddPostCommitAction\<close> and the transaction that runs the
  actions are not in the sources at hand. The storage collaborator has "a post-commit-hook
  mechanism that guarantees a scheduled callback runs once and only after commit": the
  transaction of the context keeps the scheduled actions, a commit runs each of them
  once, a rollback drops them. An action is represented by the topics it sends to the
  bus when it runs; the bus by the topics it has received.
\<close>

record txFactory =
  postCommitActions :: "string list list"

definition AddPostCommitAction :: "txFactory \<Rightarrow> string list \<Rightarrow> txFactory" where
  "AddPostCommitAction ctx f = ctx\<lparr>postCommitActions := postCommitActions ctx @ [f]\<rparr>"

definition Notify :: "string list \<Rightarrow> string \<Rightarrow> string list" where
  "Notify bus topic = bus @ [topic]"

definition Commit :: "txFactory \<Rightarrow> string list \<Rightarrow> txFactory \<times> string list" where
  "Commit ctx bus =
     (ctx\<lparr>postCommitActions := []\<rparr>, foldl (foldl Notify) bus (postCommitActions ctx))"

definition Rollback :: "txFactory \<Rightarrow> string list \<Rightarrow> txFactory \<times> string list" where
  "Rollback ctx bus = (ctx\<lparr>postCommitActions := []\<rparr>, bus)"

definition deploymentsTopic :: "string \<Rightarrow> string" where
  "deploymentsTopic cid = ''/kafka_connector_clusters/'' @ cid @ ''/deployments''"

text \<open>
  The predicate of the call (\<^verbatim>\<open>query, values\<close>) is a predicate on the rows of the
  namespace table. \<^verbatim>\<open>clusterIds\<close> is a Go map used as a set; the model lists its keys
  once each.
\<close>

definition matched :: "(ConnectorNamespace \<Rightarrow> bool) \<Rightarrow> Store \<Rightarrow> ConnectorNamespace list" where
  "matched query s = filter (\<lambda>n. ns_DeletedAt n = None \<and> query n) (connector_namespaces s)"

definition cascaded :: "string list \<Rightarrow> Store \<Rightarrow> string list" where
  "cascaded namespaceIds s =
     map con_ID (filter (\<lambda>c. con_DeletedAt c = None \<and>
                              (case con_NamespaceId c of
                                 None \<Rightarrow> False
                               | Some i \<Rightarrow> i \<in> set namespaceIds) \<and>
                              con_DesiredState c \<noteq> ConnectorDeleted)
                        (connectors s))"

definition DeleteNamespaceAndConnectorDeployments :: "ConnectorsConfig \<Rightarrow> txFactory \<Rightarrow> Store
    \<Rightarrow> (ConnectorNamespace \<Rightarrow> bool) \<Rightarrow> (bool \<times> bool \<times> ServiceError option) \<times> txFactory \<times> Store" where
  "DeleteNamespaceAndConnectorDeployments cfg ctx s query =
     (let namespaces = matched query s
      in if length namespaces = 0 then ((False, False, None), ctx, s)
         else
           let namespaceIds = map ns_ID namespaces;
               clusterIds = remdups (map ns_ClusterId namespaces);
               s1 = s\<lparr>connector_namespaces :=
                        updateNamespacePhase namespaceIds ConnectorNamespacePhaseDeleting
                          (connector_namespaces s)\<rparr>;
               connectorIds = cascaded namespaceIds s1
           in if length connectorIds = 0 then ((True, False, None), ctx, s1)
              else
                let connectorDesiredState =
                      (if ConnectorEnableUnassignedConnectors cfg
                       then ConnectorUnassigned else ConnectorDeleted);
                    s2 = s1\<lparr>connectors :=
                             map (\<lambda>c. if con_DeletedAt c = None \<and> con_ID c \<in> set connectorIds
                                       then c\<lparr>con_DesiredState := connectorDesiredState\<rparr> else c)
                                 (connectors s1)\<rparr>;
                    s3 = s2\<lparr>connector_statuses :=
                             map (\<lambda>st. if cs_DeletedAt st = None \<and> cs_ID st \<in> set connectorIds
                                        then st\<lparr>cs_Phase := ConnectorStatusPhaseDeleting\<rparr> else st)
                                 (connector_statuses s2)\<rparr>;
                    s4 = s3\<lparr>connector_deployment_statuses :=
                             map (\<lambda>st. if cds_DeletedAt st = None \<and> cds_ID st \<in> set connectorIds
                                        then st\<lparr>cds_Phase := ConnectorStatusPhaseDeleting\<rparr> else st)
                                 (connector_deployment_statuses s3)\<rparr>;
                    ctx' = AddPostCommitAction ctx (map deploymentsTopic clusterIds)
                in ((True, True, None), ctx', s4))"

text \<open>
  Modelled from the spec: the deployment statuses associated with a connector are the
  live status rows of the deployments of that connector.
\<close>

definition deploymentStatuses :: "Store \<Rightarrow> string \<Rightarrow> ConnectorDeploymentStatus list" where
  "deploymentStatuses s connectorId =
     filter (\<lambda>st. cds_DeletedAt st = None \<and>
                   (\<exists>d \<in> set (connector_deployments s).
                      cd_ID d = cds_ID st \<and> cd_ConnectorID d = connectorId))
            (connector_deployment_statuses s)"

section \<open>Reconciliation sweep\<close>

text \<open>
  The query groups the left join of namespaces and live connector statuses by the
  namespace key and keeps a group when the namespace is in phase "deleting", is not
  soft-deleted and the group has no status row. \<^verbatim>\<open>Delete(&dbapi.ConnectorNamespace{})\<close>
  then sets \<^verbatim>\<open>deleted_at\<close> of the live rows whose key was selected.
\<close>

definition liveStatuses :: "Store \<Rightarrow> string \<Rightarrow> ConnectorStatus list" where
  "liveStatuses s namespaceId =
     filter (\<lambda>st. cs_NamespaceId st = Some namespaceId \<and> cs_DeletedAt st = None)
            (connector_statuses s)"

definition emptyDeleting :: "Store \<Rightarrow> ConnectorNamespace \<Rightarrow> bool" where
  "emptyDeleting s n =
     (ns_Phase n = ConnectorStatusPhaseDeleting \<and> ns_DeletedAt n = None \<and>
      length (liveStatuses s (ns_ID n)) = 0)"

definition ReconcileDeletingNamespaces :: "time \<Rightarrow> Store \<Rightarrow> (nat \<times> ServiceError list) \<times> Store" where
  "ReconcileDeletingNamespaces now s =
     (let namespaceIds = map ns_ID (filter (emptyDeleting s) (connector_namespaces s));
          count = length namespaceIds
      in if count = 0 then ((count, []), s)
         else ((count, []),
               s\<lparr>connector_namespaces :=
                    map (\<lambda>n. if ns_DeletedAt n = None \<and> ns_ID n \<in> set namespaceIds
                              then n\<lparr>ns_DeletedAt := Some now\<rparr> else n)
                        (connector_namespaces s)\<rparr>))"

section \<open>Quota evaluator\<close>

definition connectorCount :: "Store \<Rightarrow> string \<Rightarrow> int" where
  "connectorCount s namespaceId =
     int (length (filter (\<lambda>c. con_DeletedAt c = None \<and> con_NamespaceId c = Some namespaceId)
                         (connectors s)))"

definition CheckConnectorQuota :: "ConnectorsQuotaConfig \<Rightarrow> string \<Rightarrow> Store \<Rightarrow> string
    \<Rightarrow> ServiceError option" where
  "CheckConnectorQuota quotaConfig AnnotationProfileKey s namespaceId =
     (case find (\<lambda>a. ann_NamespaceId a = namespaceId \<and> ann_Key a = AnnotationProfileKey)
                (connector_namespace_annotations s) of
        None \<Rightarrow> Some FailedToCheckQuota
      | Some a \<Rightarrow>
          (let profileName = ann_Value a;
               quota = fst (GetNamespaceQuota quotaConfig profileName)
           in if Connectors quota > 0
              then (let count = connectorCount s namespaceId
                    in if count \<ge> Connectors quota then Some InsufficientQuotaError else None)
              else None))"

definition evalNamespaces :: "ConnectorsConfig \<Rightarrow> Store \<Rightarrow> string
    \<Rightarrow> (ConnectorNamespace \<times> ConnectorCluster) list" where
  "evalNamespaces cfg s userId =
     [(n, c). n \<leftarrow> connector_namespaces s, c \<leftarrow> connector_clusters s,
        cl_ID c = ns_ClusterId n \<and>
        cl_OrganisationId c \<in> set (ConnectorEvalOrganizations cfg) \<and>
        ns_TenantUserId n = Some userId \<and> ns_Expiration n \<noteq> None \<and>
        ns_DeletedAt n = None \<and> cl_DeletedAt c = None]"

definition CanCreateEvalNamespace :: "ConnectorsConfig \<Rightarrow> Store \<Rightarrow> string \<Rightarrow> ServiceError option" where
  "CanCreateEvalNamespace cfg s userId =
     (let count = length (evalNamespaces cfg s userId)
      in if count > 0 then Some InsufficientQuotaError else None)"

section \<open>A small store\<close>

text \<open>
  Two clusters, of which only \<open>c1\<close> belongs to the evaluation organisation; an
  evaluation namespace \<open>n1\<close> of user \<open>u1\<close> with two connectors, of which \<open>k1\<close> has
  two deployments, an empty namespace
  \<open>n2\<close> in phase "deleting" whose profile is not configured, and a soft-deleted
  namespace \<open>n3\<close>.
\<close>

definition exampleConfig :: ConnectorsConfig where
  "exampleConfig =
     \<lparr>ConnectorEvalDuration = 50, ConnectorEvalOrganizations = [''org1''],
      ConnectorEnableUnassignedConnectors = False\<rparr>"

definition exampleQuotaConfig :: ConnectorsQuotaConfig where
  "exampleQuotaConfig =
     \<lparr>EvalNamespaceQuotaProfile = ''eval'',
      namespaceQuotaMap = [''eval'' \<mapsto> \<lparr>Connectors = 2\<rparr>]\<rparr>"

definition exampleNamespace :: "string \<Rightarrow> time option \<Rightarrow> string \<Rightarrow> string option
    \<Rightarrow> time option \<Rightarrow> string \<Rightarrow> ConnectorNamespace" where
  "exampleNamespace i deleted cluster user expiration p =
     \<lparr>ns_ID = i, ns_DeletedAt = deleted, ns_ClusterId = cluster, ns_TenantUserId = user,
      ns_TenantOrganisationId = None, ns_Expiration = expiration, ns_Phase = p,
      ns_Annotations = [], ns_TenantUser = None, ns_TenantOrganisation = None\<rparr>"

definition exampleStore :: Store where
  "exampleStore =
     \<lparr>connector_namespaces =
        [exampleNamespace ''n1'' None ''c1'' (Some ''u1'') (Some 10) ''ready'',
         exampleNamespace ''n2'' None ''c2'' (Some ''u2'') None ''deleting'',
         exampleNamespace ''n3'' (Some 5) ''c1'' (Some ''u3'') (Some 10) ''ready''],
      connector_namespace_annotations =
        [\<lparr>ann_NamespaceId = ''n1'', ann_Key = ''profile'', ann_Value = ''eval''\<rparr>,
         \<lparr>ann_NamespaceId = ''n2'', ann_Key = ''profile'', ann_Value = ''unknown''\<rparr>],
      connector_tenant_users = [''u1'', ''u2''],
      connector_tenant_organisations = [],
      connector_clusters =
        [\<lparr>cl_ID = ''c1'', cl_DeletedAt = None, cl_OrganisationId = ''org1''\<rparr>,
         \<lparr>cl_ID = ''c2'', cl_DeletedAt = None, cl_OrganisationId = ''org2''\<rparr>],
      connectors =
        [\<lparr>con_ID = ''k1'', con_DeletedAt = None, con_NamespaceId = Some ''n1'',
          con_DesiredState = ''ready''\<rparr>,
         \<lparr>con_ID = ''k2'', con_DeletedAt = None, con_NamespaceId = Some ''n1'',
          con_DesiredState = ''deleted''\<rparr>],
      connector_statuses =
        [\<lparr>cs_ID = ''k1'', cs_DeletedAt = None, cs_NamespaceId = Some ''n1'', cs_Phase = ''ready''\<rparr>,
         \<lparr>cs_ID = ''k2'', cs_DeletedAt = None, cs_NamespaceId = Some ''n1'', cs_Phase = ''deleting''\<rparr>],
      connector_deployments =
        [\<lparr>cd_ID = ''d1'', cd_ConnectorID = ''k1''\<rparr>,
         \<lparr>cd_ID = ''d2'', cd_ConnectorID = ''k1''\<rparr>],
      connector_deployment_statuses =
        [\<lparr>cds_ID = ''d1'', cds_DeletedAt = None, cds_Phase = ''ready''\<rparr>,
         \<lparr>cds_ID = ''d2'', cds_DeletedAt = None, cds_Phase = ''ready''\<rparr>]\<rparr>"

text \<open>The same store with a second live namespace \<open>n4\<close> on cluster \<open>c1\<close>.\<close>

definition cascadeStore :: Store where
  "cascadeStore =
     exampleStore\<lparr>connector_namespaces :=
       connector_namespaces exampleStore @
         [exampleNamespace ''n4'' None ''c1'' None None ''ready'']\<rparr>"

text \<open>
  The same store with a connector \<open>k3\<close> of namespace \<open>n2\<close> and a soft-deleted connector
  \<open>k4\<close> of namespace \<open>n1\<close>.
\<close>

definition quotaStore :: Store where
  "quotaStore =
     exampleStore\<lparr>connectors :=
       connectors exampleStore @
         [\<lparr>con_ID = ''k3'', con_DeletedAt = None, con_NamespaceId = Some ''n2'',
           con_DesiredState = ''ready''\<rparr>,
          \<lparr>con_ID = ''k4'', con_DeletedAt = Some 7, con_NamespaceId = Some ''n1'',
           con_DesiredState = ''ready''\<rparr>]\<rparr>"

definition exampleContext :: txFactory where
  "exampleContext = \<lparr>postCommitActions = []\<rparr>"

definition exampleRequest :: ConnectorNamespace where
  "exampleRequest =
     (exampleNamespace ''n9'' None [] (Some ''u9'') None [])
       \<lparr>ns_Annotations := [\<lparr>ann_NamespaceId = ''n9'', ann_Key = ''profile'', ann_Value = ''default''\<rparr>]\<rparr>"

section \<open>Properties of the eval namespace allocator\<close>

lemma ann_Value_same: "(if ann_Value a \<noteq> p then a\<lparr>ann_Value := p\<rparr> else a) = a\<lparr>ann_Value := p\<rparr>"
  by simp

lemma setProfile_found: "snd (setProfile k p anns) = (k \<in> ann_Key ` set anns)"
  by (induction anns) (auto split: prod.splits)

lemma setProfile_absent: "k \<notin> ann_Key ` set anns \<Longrightarrow> fst (setProfile k p anns) = anns"
  by (induction anns) (auto split: prod.splits)

lemma map_other_keys:
  "k \<notin> ann_Key ` set anns \<Longrightarrow> map (\<lambda>a. if ann_Key a = k then a\<lparr>ann_Value := p\<rparr> else a) anns = anns"
  by (induction anns) auto

lemma setProfile_in_place:
  "distinct (map ann_Key anns) \<Longrightarrow>
   fst (setProfile k p anns) = map (\<lambda>a. if ann_Key a = k then a\<lparr>ann_Value := p\<rparr> else a) anns"
proof (induction anns)
  case Nil
  then show ?case by simp
next
  case (Cons a anns)
  show ?case
  proof (cases "ann_Key a = k")
    case True
    with Cons.prems have "k \<notin> ann_Key ` set anns" by auto
    then show ?thesis using True by (simp add: map_other_keys)
  next
    case False
    with Cons show ?thesis by (auto split: prod.splits)
  qed
qed

lemma filter_key_map:
  "filter (\<lambda>a. ann_Key a = k) (map (\<lambda>a. if ann_Key a = k then a\<lparr>ann_Value := p\<rparr> else a) anns)
   = map (\<lambda>a. a\<lparr>ann_Value := p\<rparr>) (filter (\<lambda>a. ann_Key a = k) anns)"
  by (induction anns) auto

lemma distinct_key_filter_le:
  "distinct (map ann_Key anns) \<Longrightarrow> length (filter (\<lambda>a. ann_Key a = k) anns) = (if k \<in> ann_Key ` set anns then 1 else 0)"
  by (induction anns) (auto simp: image_iff)


lemma SetEvalClusterId_none:
  "evalClusters cfg s = [] \<Longrightarrow> SetEvalClusterId cfg quotaConfig K now seed s request = Inl Unauthorized"
  by (simp add: SetEvalClusterId_def)

lemma SetEvalClusterId_some:
  assumes "evalClusters cfg s \<noteq> []"
      and "setProfile K (EvalNamespaceQuotaProfile quotaConfig) (ns_Annotations request) = (anns, found)"
  shows "SetEvalClusterId cfg quotaConfig K now seed s request =
     Inr (request\<lparr>ns_ClusterId :=
                    (if length (evalClusters cfg s) = 1 then evalClusters cfg s ! 0
                     else evalClusters cfg s ! Intn seed (length (evalClusters cfg s))),
                  ns_Expiration := Some (now + ConnectorEvalDuration cfg),
                  ns_Annotations :=
                    (if found then anns
                     else anns @ [\<lparr>ann_NamespaceId = ns_ID request, ann_Key = K,
                                   ann_Value = EvalNamespaceQuotaProfile quotaConfig\<rparr>])\<rparr>)"
  using assms by (simp add: SetEvalClusterId_def Let_def)

lemma profile_annotation_result:
  assumes d: "distinct (map ann_Key old)"
      and sp: "setProfile K p old = (anns, found)"
  shows "(if found then anns else anns @ [\<lparr>ann_NamespaceId = i, ann_Key = K, ann_Value = p\<rparr>]) =
         (if K \<in> ann_Key ` set old
          then map (\<lambda>a. if ann_Key a = K then a\<lparr>ann_Value := p\<rparr> else a) old
          else old @ [\<lparr>ann_NamespaceId = i, ann_Key = K, ann_Value = p\<rparr>])"
proof -
  have f: "found = (K \<in> ann_Key ` set old)"
    using setProfile_found [of K p old] sp by simp
  show ?thesis
  proof (cases found)
    case True
    then show ?thesis using setProfile_in_place [OF d, of K p] sp f by simp
  next
    case False
    then have "K \<notin> ann_Key ` set old" using f by simp
    then show ?thesis using setProfile_absent [of K old p] sp False by simp
  qed
qed

lemma one_profile_annotation:
  fixes K p i old
  assumes d: "distinct (map ann_Key old)"
  defines "new \<equiv> (if K \<in> ann_Key ` set old
          then map (\<lambda>a. if ann_Key a = K then a\<lparr>ann_Value := p\<rparr> else a) old
          else old @ [\<lparr>ann_NamespaceId = i, ann_Key = K, ann_Value = p\<rparr>])"
  shows "length (filter (\<lambda>a. ann_Key a = K) new) = 1"
    and "\<forall>a \<in> set new. ann_Key a = K \<longrightarrow> ann_Value a = p"
proof -
  show "length (filter (\<lambda>a. ann_Key a = K) new) = 1"
  proof (cases "K \<in> ann_Key ` set old")
    case True
    then show ?thesis
      using distinct_key_filter_le [OF d, of K] by (simp add: new_def filter_key_map)
  next
    case False
    then have "filter (\<lambda>a. ann_Key a = K) old = []"
      by (auto simp: filter_empty_conv)
    then show ?thesis using False by (simp add: new_def)
  qed
  show "\<forall>a \<in> set new. ann_Key a = K \<longrightarrow> ann_Value a = p"
    by (auto simp: new_def)
qed

lemma eligible_set:
  "cl_ID ` {c \<in> set (connector_clusters s). cl_DeletedAt c = None \<and>
        cl_OrganisationId c \<in> set (ConnectorEvalOrganizations cfg)} = set (evalClusters cfg s)"
  by (auto simp: evalClusters_def)

lemma picked_cluster:
  assumes "xs \<noteq> []"
  shows "(if length xs = 1 then xs ! 0 else xs ! Intn seed (length xs)) \<in> set xs"
proof -
  have "Intn seed (length xs) < length xs"
    using assms by (simp add: Intn_def)
  then show ?thesis using assms by simp
qed

lemma ex_none: "evalClusters exampleConfig (exampleStore\<lparr>connector_clusters := []\<rparr>) = []"
  by (simp add: evalClusters_def)

lemma ex_some: "evalClusters exampleConfig exampleStore = [''c1'']"
  by (simp add: evalClusters_def exampleConfig_def exampleStore_def)

text \<open>
  Claim C9. \<^verbatim>\<open>SetEvalClusterId\<close> fails with \<^verbatim>\<open>Unauthorized\<close> when no live cluster
  belongs to a whitelisted evaluation organisation. Otherwise it succeeds: the cluster
  of the namespace is one of those clusters (so the only one when there is exactly one),
  the expiration is the current time plus the configured evaluation duration, and, when
  the annotations of the request have pairwise different keys, the result has exactly
  one annotation with the profile key, whose value is the configured evaluation
  profile: the existing one overwritten in place, or a new one appended.
\<close>

theorem SetEvalClusterId_spec:
  "(cl_ID ` {c \<in> set (connector_clusters s). cl_DeletedAt c = None \<and>
        cl_OrganisationId c \<in> set (ConnectorEvalOrganizations cfg)} = {} \<longrightarrow>
      SetEvalClusterId cfg quotaConfig K now seed s request = Inl Unauthorized) \<and>
   (cl_ID ` {c \<in> set (connector_clusters s). cl_DeletedAt c = None \<and>
        cl_OrganisationId c \<in> set (ConnectorEvalOrganizations cfg)} \<noteq> {} \<longrightarrow>
      (\<exists>r. SetEvalClusterId cfg quotaConfig K now seed s request = Inr r \<and>
           ns_ClusterId r \<in> cl_ID ` {c \<in> set (connector_clusters s). cl_DeletedAt c = None \<and>
              cl_OrganisationId c \<in> set (ConnectorEvalOrganizations cfg)} \<and>
           ns_Expiration r = Some (now + ConnectorEvalDuration cfg) \<and>
           (distinct (map ann_Key (ns_Annotations request)) \<longrightarrow>
              length (filter (\<lambda>a. ann_Key a = K) (ns_Annotations r)) = 1 \<and>
              (\<forall>a \<in> set (ns_Annotations r).
                 ann_Key a = K \<longrightarrow> ann_Value a = EvalNamespaceQuotaProfile quotaConfig) \<and>
              ns_Annotations r =
                (if K \<in> ann_Key ` set (ns_Annotations request)
                 then map (\<lambda>a. if ann_Key a = K
                                then a\<lparr>ann_Value := EvalNamespaceQuotaProfile quotaConfig\<rparr> else a)
                          (ns_Annotations request)
                 else ns_Annotations request @
                        [\<lparr>ann_NamespaceId = ns_ID request, ann_Key = K,
                          ann_Value = EvalNamespaceQuotaProfile quotaConfig\<rparr>]))))"
  (is "(?E = {} \<longrightarrow> ?none) \<and> (?E \<noteq> {} \<longrightarrow> ?some)")
proof (intro conjI impI)
  assume "?E = {}"
  then have "evalClusters cfg s = []"
    by (simp only: eligible_set set_empty)
  then show ?none by (rule SetEvalClusterId_none)
next
  let ?av = "evalClusters cfg s"
  let ?old = "ns_Annotations request"
  let ?p = "EvalNamespaceQuotaProfile quotaConfig"
  let ?new = "if K \<in> ann_Key ` set ?old
              then map (\<lambda>a. if ann_Key a = K then a\<lparr>ann_Value := ?p\<rparr> else a) ?old
              else ?old @ [\<lparr>ann_NamespaceId = ns_ID request, ann_Key = K, ann_Value = ?p\<rparr>]"
  assume "?E \<noteq> {}"
  then have ne: "?av \<noteq> []"
    by (simp only: eligible_set set_empty not_False_eq_True)
  obtain anns found where sp: "setProfile K ?p ?old = (anns, found)"
    by (cases "setProfile K ?p ?old")
  define cid where "cid = (if length ?av = 1 then ?av ! 0 else ?av ! Intn seed (length ?av))"
  define final where "final = (if found then anns
       else anns @ [\<lparr>ann_NamespaceId = ns_ID request, ann_Key = K, ann_Value = ?p\<rparr>])"
  define r where "r = request\<lparr>ns_ClusterId := cid,
       ns_Expiration := Some (now + ConnectorEvalDuration cfg), ns_Annotations := final\<rparr>"
  have res: "SetEvalClusterId cfg quotaConfig K now seed s request = Inr r"
    unfolding r_def cid_def final_def by (rule SetEvalClusterId_some [OF ne sp])
  have "cid \<in> set ?av"
    unfolding cid_def by (rule picked_cluster [OF ne])
  then have c: "ns_ClusterId r \<in> ?E"
    by (simp add: r_def eligible_set)
  have e: "ns_Expiration r = Some (now + ConnectorEvalDuration cfg)"
    by (simp add: r_def)
  have fin: "ns_Annotations r = final"
    by (simp add: r_def)
  have a: "distinct (map ann_Key ?old) \<longrightarrow>
             length (filter (\<lambda>a. ann_Key a = K) (ns_Annotations r)) = 1 \<and>
             (\<forall>a \<in> set (ns_Annotations r). ann_Key a = K \<longrightarrow> ann_Value a = ?p) \<and>
             ns_Annotations r = ?new"
  proof
    assume d: "distinct (map ann_Key ?old)"
    have eq: "ns_Annotations r = ?new"
      unfolding fin final_def by (rule profile_annotation_result [OF d sp])
    show "length (filter (\<lambda>a. ann_Key a = K) (ns_Annotations r)) = 1 \<and>
             (\<forall>a \<in> set (ns_Annotations r). ann_Key a = K \<longrightarrow> ann_Value a = ?p) \<and>
             ns_Annotations r = ?new"
      unfolding eq
      using one_profile_annotation [OF d, of K ?p "ns_ID request"] by blast
  qed
  show ?some
    using res c e a by blast
qed

theorem SetEvalClusterId_spec_witness:
  "SetEvalClusterId exampleConfig exampleQuotaConfig ''profile'' 100 7
      (exampleStore\<lparr>connector_clusters := []\<rparr>) exampleRequest = Inl Unauthorized \<and>
   distinct (map ann_Key (ns_Annotations exampleRequest)) \<and>
   (\<exists>r. SetEvalClusterId exampleConfig exampleQuotaConfig ''profile'' 100 7 exampleStore
          exampleRequest = Inr r \<and>
        ns_ClusterId r = ''c1'' \<and> ns_Expiration r = Some 150 \<and>
        ns_Annotations r =
          [\<lparr>ann_NamespaceId = ''n9'', ann_Key = ''profile'', ann_Value = ''eval''\<rparr>])"
proof -
  have d: "distinct (map ann_Key (ns_Annotations exampleRequest))"
    by (simp add: exampleRequest_def)
  have e0: "cl_ID ` {c \<in> set (connector_clusters (exampleStore\<lparr>connector_clusters := []\<rparr>)).
              cl_DeletedAt c = None \<and>
              cl_OrganisationId c \<in> set (ConnectorEvalOrganizations exampleConfig)} = {}"
    by simp
  have e1: "cl_ID ` {c \<in> set (connector_clusters exampleStore). cl_DeletedAt c = None \<and>
              cl_OrganisationId c \<in> set (ConnectorEvalOrganizations exampleConfig)} = {''c1''}"
    unfolding eligible_set ex_some by simp
  have a: "SetEvalClusterId exampleConfig exampleQuotaConfig ''profile'' 100 7
      (exampleStore\<lparr>connector_clusters := []\<rparr>) exampleRequest = Inl Unauthorized"
    using SetEvalClusterId_spec [of "exampleStore\<lparr>connector_clusters := []\<rparr>" exampleConfig
        exampleQuotaConfig "''profile''" 100 7 exampleRequest] e0
    by blast
  have b: "\<exists>r. SetEvalClusterId exampleConfig exampleQuotaConfig ''profile'' 100 7 exampleStore
          exampleRequest = Inr r \<and>
        ns_ClusterId r = ''c1'' \<and> ns_Expiration r = Some 150 \<and>
        ns_Annotations r =
          [\<lparr>ann_NamespaceId = ''n9'', ann_Key = ''profile'', ann_Value = ''eval''\<rparr>]"
    using SetEvalClusterId_spec [of exampleStore exampleConfig
        exampleQuotaConfig "''profile''" 100 7 exampleRequest] d
    unfolding e1
    by (auto simp: exampleRequest_def exampleConfig_def exampleQuotaConfig_def)
  show ?thesis using a d b by blast
qed

section \<open>Properties of the quota evaluator\<close>

lemma CheckConnectorQuota_found:
  assumes "find (\<lambda>a. ann_NamespaceId a = namespaceId \<and> ann_Key a = K)
             (connector_namespace_annotations s) = Some a"
  shows "CheckConnectorQuota quotaConfig K s namespaceId =
           (if 0 < Connectors (fst (GetNamespaceQuota quotaConfig (ann_Value a))) \<and>
               Connectors (fst (GetNamespaceQuota quotaConfig (ann_Value a))) \<le> connectorCount s namespaceId
            then Some InsufficientQuotaError else None)"
  using assms by (simp add: CheckConnectorQuota_def Let_def)

lemma GetNamespaceQuota_known:
  "namespaceQuotaMap quotaConfig name = Some quota \<Longrightarrow> GetNamespaceQuota quotaConfig name = (quota, True)"
  by (simp add: GetNamespaceQuota_def)

lemma GetNamespaceQuota_unknown:
  "namespaceQuotaMap quotaConfig name = None \<Longrightarrow>
   GetNamespaceQuota quotaConfig name = (\<lparr>Connectors = 0\<rparr>, False)"
  by (simp add: GetNamespaceQuota_def)

lemma ex_ann_n1:
  "find (\<lambda>a. ann_NamespaceId a = ''n1'' \<and> ann_Key a = ''profile'')
     (connector_namespace_annotations exampleStore) =
   Some \<lparr>ann_NamespaceId = ''n1'', ann_Key = ''profile'', ann_Value = ''eval''\<rparr>"
  by (simp add: exampleStore_def)

lemma ex_ann_n2:
  "find (\<lambda>a. ann_NamespaceId a = ''n2'' \<and> ann_Key a = ''profile'')
     (connector_namespace_annotations exampleStore) =
   Some \<lparr>ann_NamespaceId = ''n2'', ann_Key = ''profile'', ann_Value = ''unknown''\<rparr>"
  by (simp add: exampleStore_def)

lemma ex_count_n1: "connectorCount exampleStore ''n1'' = 2"
  by (simp add: connectorCount_def exampleStore_def)

lemma quota_ann_n1:
  "find (\<lambda>a. ann_NamespaceId a = ''n1'' \<and> ann_Key a = ''profile'')
     (connector_namespace_annotations quotaStore) =
   Some \<lparr>ann_NamespaceId = ''n1'', ann_Key = ''profile'', ann_Value = ''eval''\<rparr>"
  by (simp add: quotaStore_def ex_ann_n1)

lemma quota_connectors:
  "connectors quotaStore =
     [\<lparr>con_ID = ''k1'', con_DeletedAt = None, con_NamespaceId = Some ''n1'',
        con_DesiredState = ''ready''\<rparr>,
      \<lparr>con_ID = ''k2'', con_DeletedAt = None, con_NamespaceId = Some ''n1'',
        con_DesiredState = ''deleted''\<rparr>,
      \<lparr>con_ID = ''k3'', con_DeletedAt = None, con_NamespaceId = Some ''n2'',
        con_DesiredState = ''ready''\<rparr>,
      \<lparr>con_ID = ''k4'', con_DeletedAt = Some 7, con_NamespaceId = Some ''n1'',
        con_DesiredState = ''ready''\<rparr>]"
  by (simp add: quotaStore_def exampleStore_def)

lemma quota_count_n1:
  "int (length (filter (\<lambda>c. con_DeletedAt c = None \<and> con_NamespaceId c = Some ''n1'')
                       (connectors quotaStore))) = 2"
  unfolding quota_connectors by simp

text \<open>
  Claim C7. Let \<open>count\<close> be the number of connectors of the namespace: the rows of the
  connector table that are not soft-deleted and have the namespace's key as their
  namespace. When the profile annotation that \<^verbatim>\<open>CheckConnectorQuota\<close> reads for the
  namespace names a configured profile with cap \<open>Connectors quota\<close>, the check succeeds
  when \<open>count\<close> is below the cap, fails with \<^verbatim>\<open>InsufficientQuotaError\<close> when the cap is
  positive and \<open>count\<close> has reached it, and succeeds, whatever \<open>count\<close> is, when the
  cap is zero or negative.
\<close>

theorem CheckConnectorQuota_cap:
  assumes ann: "find (\<lambda>a. ann_NamespaceId a = namespaceId \<and> ann_Key a = K)
                  (connector_namespace_annotations s) = Some a"
      and quota: "namespaceQuotaMap quotaConfig (ann_Value a) = Some quota"
      and count: "count = int (length (filter (\<lambda>c. con_DeletedAt c = None \<and>
                                                   con_NamespaceId c = Some namespaceId)
                                             (connectors s)))"
  shows "(count < Connectors quota \<longrightarrow>
            CheckConnectorQuota quotaConfig K s namespaceId = None) \<and>
         (0 < Connectors quota \<and> Connectors quota \<le> count \<longrightarrow>
            CheckConnectorQuota quotaConfig K s namespaceId = Some InsufficientQuotaError) \<and>
         (Connectors quota \<le> 0 \<longrightarrow>
            CheckConnectorQuota quotaConfig K s namespaceId = None)"
proof -
  have c: "connectorCount s namespaceId = count"
    unfolding count by (simp add: connectorCount_def)
  have "0 \<le> count"
    unfolding count by simp
  then show ?thesis
    by (simp add: CheckConnectorQuota_found [OF ann] GetNamespaceQuota_known [OF quota] c)
qed

theorem CheckConnectorQuota_cap_witness:
  "length (connectors quotaStore) = 4 \<and>
   int (length (filter (\<lambda>c. con_DeletedAt c = None \<and> con_NamespaceId c = Some ''n1'')
                       (connectors quotaStore))) = 2 \<and>
   CheckConnectorQuota (exampleQuotaConfig\<lparr>namespaceQuotaMap := [''eval'' \<mapsto> \<lparr>Connectors = 3\<rparr>]\<rparr>)
      ''profile'' quotaStore ''n1'' = None \<and>
   CheckConnectorQuota exampleQuotaConfig ''profile'' quotaStore ''n1'' = Some InsufficientQuotaError \<and>
   CheckConnectorQuota (exampleQuotaConfig\<lparr>namespaceQuotaMap := [''eval'' \<mapsto> \<lparr>Connectors = 0\<rparr>]\<rparr>)
      ''profile'' quotaStore ''n1'' = None"
proof -
  have n: "length (connectors quotaStore) = 4"
    unfolding quota_connectors by simp
  have a: "CheckConnectorQuota (exampleQuotaConfig\<lparr>namespaceQuotaMap := [''eval'' \<mapsto> \<lparr>Connectors = 3\<rparr>]\<rparr>)
      ''profile'' quotaStore ''n1'' = None"
    using CheckConnectorQuota_cap [OF quota_ann_n1 _ quota_count_n1 [symmetric],
        of "exampleQuotaConfig\<lparr>namespaceQuotaMap := [''eval'' \<mapsto> \<lparr>Connectors = 3\<rparr>]\<rparr>"
           "\<lparr>Connectors = 3\<rparr>"]
    by simp
  have b: "CheckConnectorQuota exampleQuotaConfig ''profile'' quotaStore ''n1'' =
      Some InsufficientQuotaError"
    using CheckConnectorQuota_cap [OF quota_ann_n1 _ quota_count_n1 [symmetric],
        of exampleQuotaConfig "\<lparr>Connectors = 2\<rparr>"]
    by (simp add: exampleQuotaConfig_def)
  have c: "CheckConnectorQuota (exampleQuotaConfig\<lparr>namespaceQuotaMap := [''eval'' \<mapsto> \<lparr>Connectors = 0\<rparr>]\<rparr>)
      ''profile'' quotaStore ''n1'' = None"
    using CheckConnectorQuota_cap [OF quota_ann_n1 _ quota_count_n1 [symmetric],
        of "exampleQuotaConfig\<lparr>namespaceQuotaMap := [''eval'' \<mapsto> \<lparr>Connectors = 0\<rparr>]\<rparr>"
           "\<lparr>Connectors = 0\<rparr>"]
    by simp
  show ?thesis using n quota_count_n1 a b c by (intro conjI)
qed

text \<open>
  Claim C10. When the profile annotation of the namespace names a profile the resolver
  does not know, the resolver answers with the zero policy and "not found";
  \<^verbatim>\<open>CheckConnectorQuota\<close> drops the signal and succeeds, however many connectors the
  namespace holds.
\<close>

theorem CheckConnectorQuota_unknown_profile:
  assumes ann: "find (\<lambda>a. ann_NamespaceId a = namespaceId \<and> ann_Key a = K)
                  (connector_namespace_annotations s) = Some a"
      and unknown: "namespaceQuotaMap quotaConfig (ann_Value a) = None"
  shows "GetNamespaceQuota quotaConfig (ann_Value a) = (\<lparr>Connectors = 0\<rparr>, False) \<and>
         CheckConnectorQuota quotaConfig K s namespaceId = None"
  by (simp add: CheckConnectorQuota_found [OF ann] GetNamespaceQuota_unknown [OF unknown])

theorem CheckConnectorQuota_unknown_profile_witness:
  "namespaceQuotaMap (exampleQuotaConfig\<lparr>namespaceQuotaMap := Map.empty\<rparr>) ''eval'' = None \<and>
   connectorCount exampleStore ''n1'' = 2 \<and>
   GetNamespaceQuota (exampleQuotaConfig\<lparr>namespaceQuotaMap := Map.empty\<rparr>) ''eval'' =
     (\<lparr>Connectors = 0\<rparr>, False) \<and>
   CheckConnectorQuota (exampleQuotaConfig\<lparr>namespaceQuotaMap := Map.empty\<rparr>)
     ''profile'' exampleStore ''n1'' = None"
  using CheckConnectorQuota_unknown_profile [OF ex_ann_n1,
      of "exampleQuotaConfig\<lparr>namespaceQuotaMap := Map.empty\<rparr>"]
  by (simp add: ex_count_n1)

lemma in_evalNamespaces:
  "(n, c) \<in> set (evalNamespaces cfg s userId) \<longleftrightarrow>
     n \<in> set (connector_namespaces s) \<and> c \<in> set (connector_clusters s) \<and>
     cl_ID c = ns_ClusterId n \<and>
     cl_OrganisationId c \<in> set (ConnectorEvalOrganizations cfg) \<and>
     ns_TenantUserId n = Some userId \<and> ns_Expiration n \<noteq> None \<and>
     ns_DeletedAt n = None \<and> cl_DeletedAt c = None"
  unfolding evalNamespaces_def by simp

lemma evalNamespaces_empty_iff:
  "evalNamespaces cfg s userId = [] \<longleftrightarrow>
   \<not> (\<exists>n \<in> set (connector_namespaces s). \<exists>c \<in> set (connector_clusters s).
        ns_TenantUserId n = Some userId \<and> ns_Expiration n \<noteq> None \<and> ns_DeletedAt n = None \<and>
        cl_ID c = ns_ClusterId n \<and> cl_DeletedAt c = None \<and>
        cl_OrganisationId c \<in> set (ConnectorEvalOrganizations cfg))"
proof -
  have "evalNamespaces cfg s userId = [] \<longleftrightarrow> (\<forall>n c. (n, c) \<notin> set (evalNamespaces cfg s userId))"
    by (cases "evalNamespaces cfg s userId") auto
  then show ?thesis
    unfolding in_evalNamespaces by blast
qed

text \<open>
  Claim C8. \<^verbatim>\<open>CanCreateEvalNamespace\<close> fails with \<^verbatim>\<open>InsufficientQuotaError\<close> exactly
  when the user is the tenant of a namespace that is not soft-deleted, has an
  expiration, and lies on a cluster that is not soft-deleted and belongs to a
  whitelisted evaluation organisation; in every other store it succeeds.
\<close>

theorem CanCreateEvalNamespace_iff:
  "(CanCreateEvalNamespace cfg s userId = Some InsufficientQuotaError \<longleftrightarrow>
     (\<exists>n \<in> set (connector_namespaces s). \<exists>c \<in> set (connector_clusters s).
        ns_TenantUserId n = Some userId \<and> ns_Expiration n \<noteq> None \<and> ns_DeletedAt n = None \<and>
        cl_ID c = ns_ClusterId n \<and> cl_DeletedAt c = None \<and>
        cl_OrganisationId c \<in> set (ConnectorEvalOrganizations cfg))) \<and>
   (CanCreateEvalNamespace cfg s userId \<noteq> Some InsufficientQuotaError \<longleftrightarrow>
      CanCreateEvalNamespace cfg s userId = None)"
proof -
  have "CanCreateEvalNamespace cfg s userId =
          (if evalNamespaces cfg s userId = [] then None else Some InsufficientQuotaError)"
    by (simp add: CanCreateEvalNamespace_def)
  then show ?thesis
    using evalNamespaces_empty_iff [of cfg s userId] by auto
qed

theorem CanCreateEvalNamespace_iff_witness:
  "CanCreateEvalNamespace exampleConfig exampleStore ''u1'' = Some InsufficientQuotaError \<and>
   CanCreateEvalNamespace exampleConfig exampleStore ''u2'' = None \<and>
   CanCreateEvalNamespace exampleConfig exampleStore ''u3'' = None"
proof -
  have "\<exists>n \<in> set (connector_namespaces exampleStore). \<exists>c \<in> set (connector_clusters exampleStore).
        ns_TenantUserId n = Some ''u1'' \<and> ns_Expiration n \<noteq> None \<and> ns_DeletedAt n = None \<and>
        cl_ID c = ns_ClusterId n \<and> cl_DeletedAt c = None \<and>
        cl_OrganisationId c \<in> set (ConnectorEvalOrganizations exampleConfig)"
    by (simp add: exampleStore_def exampleConfig_def exampleNamespace_def)
  then have "CanCreateEvalNamespace exampleConfig exampleStore ''u1'' = Some InsufficientQuotaError"
    using CanCreateEvalNamespace_iff [of exampleConfig exampleStore "''u1''"] by blast
  moreover have "\<not> (\<exists>n \<in> set (connector_namespaces exampleStore). \<exists>c \<in> set (connector_clusters exampleStore).
        ns_TenantUserId n = Some ''u2'' \<and> ns_Expiration n \<noteq> None \<and> ns_DeletedAt n = None \<and>
        cl_ID c = ns_ClusterId n \<and> cl_DeletedAt c = None \<and>
        cl_OrganisationId c \<in> set (ConnectorEvalOrganizations exampleConfig))"
    by (simp add: exampleStore_def exampleConfig_def exampleNamespace_def)
  then have "CanCreateEvalNamespace exampleConfig exampleStore ''u2'' = None"
    using CanCreateEvalNamespace_iff [of exampleConfig exampleStore "''u2''"] by blast
  moreover have "\<not> (\<exists>n \<in> set (connector_namespaces exampleStore). \<exists>c \<in> set (connector_clusters exampleStore).
        ns_TenantUserId n = Some ''u3'' \<and> ns_Expiration n \<noteq> None \<and> ns_DeletedAt n = None \<and>
        cl_ID c = ns_ClusterId n \<and> cl_DeletedAt c = None \<and>
        cl_OrganisationId c \<in> set (ConnectorEvalOrganizations exampleConfig))"
    by (simp add: exampleStore_def exampleConfig_def exampleNamespace_def)
  then have "CanCreateEvalNamespace exampleConfig exampleStore ''u3'' = None"
    using CanCreateEvalNamespace_iff [of exampleConfig exampleStore "''u3''"] by blast
  ultimately show ?thesis by blast
qed

section \<open>Properties of \<^verbatim>\<open>Get\<close>\<close>

lemma Get_never_NotFound: "Get s namespaceID \<noteq> Inl NotFound"
  by (simp add: Get_def split: option.splits)

lemma Get_absent:
  assumes "namespaceID \<noteq> []"
      and "\<not> (\<exists>n \<in> set (connector_namespaces s). ns_DeletedAt n = None \<and> ns_ID n = namespaceID)"
  shows "Get s namespaceID = Inl GeneralError"
proof -
  have "find (\<lambda>n. ns_DeletedAt n = None \<and> (namespaceID = [] \<or> ns_ID n = namespaceID))
          (connector_namespaces s) = None"
    using assms by (auto simp: find_None_iff)
  then show ?thesis by (simp add: Get_def)
qed

lemma find_by_key:
  assumes "distinct (map f xs)" and "x \<in> set xs" and "A x"
  shows "find (\<lambda>y. A y \<and> f y = f x) xs = Some x"
  using assms
proof (induction xs)
  case Nil
  then show ?case by simp
next
  case (Cons a xs)
  show ?case
  proof (cases "a = x")
    case True
    then show ?thesis using Cons.prems by simp
  next
    case False
    then have "x \<in> set xs" using Cons.prems by simp
    then have "f a \<noteq> f x" using Cons.prems(1) by auto
    then show ?thesis using Cons \<open>x \<in> set xs\<close> by simp
  qed
qed

lemma Get_present:
  assumes "distinct (map ns_ID (connector_namespaces s))"
      and "n \<in> set (connector_namespaces s)" and "ns_DeletedAt n = None" and "ns_ID n \<noteq> []"
  shows "Get s (ns_ID n) = Inr (preload s n)"
  using find_by_key [of ns_ID "connector_namespaces s" n "\<lambda>m. ns_DeletedAt m = None"] assms
  by (simp add: Get_def)

text \<open>
  Claim C4 says that \<^verbatim>\<open>Get\<close> fails with \<^verbatim>\<open>NotFound\<close> for a key without a record.
  In the example store, \<open>n7\<close> is the key of no row and \<open>n3\<close> the key of a soft-deleted
  row: for both \<^verbatim>\<open>Get\<close> returns \<^verbatim>\<open>GeneralError\<close>. (For the key of a live row it returns
  the row with its relations loaded: \<open>Get_present\<close>.)
\<close>

theorem Get_missing_GeneralError:
  "Get exampleStore ''n7'' = Inl GeneralError \<and> Get exampleStore ''n3'' = Inl GeneralError"
  by (simp add: Get_def exampleStore_def exampleNamespace_def)

section \<open>Properties of eviction and of the reconciliation sweep\<close>

text \<open>
  The key of a table is unique among its rows; the theorems on statements that select
  by key assume it of the namespace table.
\<close>

lemma key_selected:
  assumes "distinct (map f xs)" and "x \<in> set xs"
  shows "f x \<in> set (map f (filter P xs)) \<longleftrightarrow> P x"
proof
  assume "f x \<in> set (map f (filter P xs))"
  then obtain y where y: "y \<in> set xs" "P y" "f y = f x" by auto
  have "inj_on f (set xs)" using assms(1) by (simp add: distinct_map)
  then have "y = x" using y assms(2) by (auto dest: inj_onD)
  then show "P x" using y by simp
next
  assume "P x"
  then show "f x \<in> set (map f (filter P xs))" using assms(2) by auto
qed

lemma updateNamespacePhase_selected:
  assumes "distinct (map ns_ID rows)"
  shows "updateNamespacePhase (map ns_ID (filter P rows)) p rows =
           map (\<lambda>n. if ns_DeletedAt n = None \<and> P n then n\<lparr>ns_Phase := p\<rparr> else n) rows"
  unfolding updateNamespacePhase_def
proof (rule map_cong [OF refl])
  fix n assume "n \<in> set rows"
  then have "ns_ID n \<in> set (map ns_ID (filter P rows)) \<longleftrightarrow> P n"
    by (rule key_selected [OF assms])
  then show "(if ns_DeletedAt n = None \<and> ns_ID n \<in> set (map ns_ID (filter P rows))
              then n\<lparr>ns_Phase := p\<rparr> else n) =
             (if ns_DeletedAt n = None \<and> P n then n\<lparr>ns_Phase := p\<rparr> else n)"
    by (simp only:)
qed

lemma image_selected: "f ` {x \<in> set xs. P x} = set (map f (filter P xs))"
  by auto

lemma expired_iff: "expired now n \<longleftrightarrow> (\<exists>e. ns_Expiration n = Some e \<and> e < now)"
  by (simp add: expired_def split: option.splits)

lemma ex_ids: "distinct (map ns_ID (connector_namespaces exampleStore))"
  by (simp add: exampleStore_def exampleNamespace_def)

lemma ex_rows:
  "connector_namespaces exampleStore =
     [exampleNamespace ''n1'' None ''c1'' (Some ''u1'') (Some 10) ''ready'',
      exampleNamespace ''n2'' None ''c2'' (Some ''u2'') None ''deleting'',
      exampleNamespace ''n3'' (Some 5) ''c1'' (Some ''u3'') (Some 10) ''ready'']"
  by (simp add: exampleStore_def)

lemma ex_statuses:
  "connector_statuses exampleStore =
     [\<lparr>cs_ID = ''k1'', cs_DeletedAt = None, cs_NamespaceId = Some ''n1'', cs_Phase = ''ready''\<rparr>,
      \<lparr>cs_ID = ''k2'', cs_DeletedAt = None, cs_NamespaceId = Some ''n1'', cs_Phase = ''deleting''\<rparr>]"
  by (simp add: exampleStore_def)

text \<open>
  Claim C5. \<^verbatim>\<open>GetExpiredNamespaceIds\<close> returns exactly the keys of the namespaces (the
  rows of the table that are not soft-deleted, the only ones a statement on the model
  sees) whose expiration is strictly before the current time, and no error; after the
  call each of these has phase "deleting" and every other row is as it was. A
  namespace whose expiration is null or not before the current time is not in the
  result.
\<close>

theorem GetExpiredNamespaceIds_spec:
  assumes ids: "distinct (map ns_ID (connector_namespaces s))"
  shows "set (fst (fst (GetExpiredNamespaceIds now s))) =
           ns_ID ` {n \<in> set (connector_namespaces s).
                     ns_DeletedAt n = None \<and> (\<exists>e. ns_Expiration n = Some e \<and> e < now)} \<and>
         snd (fst (GetExpiredNamespaceIds now s)) = None \<and>
         snd (GetExpiredNamespaceIds now s) =
           s\<lparr>connector_namespaces :=
               map (\<lambda>n. if ns_DeletedAt n = None \<and> (\<exists>e. ns_Expiration n = Some e \<and> e < now)
                         then n\<lparr>ns_Phase := ConnectorNamespacePhaseDeleting\<rparr> else n)
                   (connector_namespaces s)\<rparr> \<and>
         (\<forall>n \<in> set (connector_namespaces s).
            ns_Expiration n = None \<or> (\<exists>e. ns_Expiration n = Some e \<and> now \<le> e) \<longrightarrow>
            ns_ID n \<notin> set (fst (fst (GetExpiredNamespaceIds now s))))"
proof -
  let ?P = "\<lambda>n. ns_DeletedAt n = None \<and> expired now n"
  let ?rows = "connector_namespaces s"
  have res: "fst (fst (GetExpiredNamespaceIds now s)) = map ns_ID (filter ?P ?rows)"
    by (simp add: GetExpiredNamespaceIds_def Let_def)
  have a: "set (fst (fst (GetExpiredNamespaceIds now s))) =
           ns_ID ` {n \<in> set ?rows. ns_DeletedAt n = None \<and> (\<exists>e. ns_Expiration n = Some e \<and> e < now)}"
    unfolding res by (simp add: expired_iff)
  have b: "snd (fst (GetExpiredNamespaceIds now s)) = None"
    by (simp add: GetExpiredNamespaceIds_def Let_def)
  have "updateNamespacePhase (map ns_ID (filter ?P ?rows)) ConnectorNamespacePhaseDeleting ?rows =
          map (\<lambda>n. if ns_DeletedAt n = None \<and> (\<exists>e. ns_Expiration n = Some e \<and> e < now)
                    then n\<lparr>ns_Phase := ConnectorNamespacePhaseDeleting\<rparr> else n) ?rows"
    unfolding updateNamespacePhase_selected [OF ids]
    by (rule map_cong [OF refl]) (simp add: expired_iff)
  then have c: "snd (GetExpiredNamespaceIds now s) =
           s\<lparr>connector_namespaces :=
               map (\<lambda>n. if ns_DeletedAt n = None \<and> (\<exists>e. ns_Expiration n = Some e \<and> e < now)
                         then n\<lparr>ns_Phase := ConnectorNamespacePhaseDeleting\<rparr> else n) ?rows\<rparr>"
    by (simp add: GetExpiredNamespaceIds_def Let_def)
  have d: "\<forall>n \<in> set ?rows.
            ns_Expiration n = None \<or> (\<exists>e. ns_Expiration n = Some e \<and> now \<le> e) \<longrightarrow>
            ns_ID n \<notin> set (fst (fst (GetExpiredNamespaceIds now s)))"
  proof (intro ballI impI)
    fix n assume n: "n \<in> set ?rows"
      and "ns_Expiration n = None \<or> (\<exists>e. ns_Expiration n = Some e \<and> now \<le> e)"
    then have "\<not> ?P n" by (auto simp: expired_iff)
    then show "ns_ID n \<notin> set (fst (fst (GetExpiredNamespaceIds now s)))"
      unfolding res using key_selected [OF ids n, of ?P] by simp
  qed
  show ?thesis using a b c d by blast
qed

theorem GetExpiredNamespaceIds_spec_witness:
  "distinct (map ns_ID (connector_namespaces exampleStore)) \<and>
   set (fst (fst (GetExpiredNamespaceIds 20 exampleStore))) = {''n1''} \<and>
   map ns_Phase (connector_namespaces (snd (GetExpiredNamespaceIds 20 exampleStore))) =
     [''deleting'', ''deleting'', ''ready'']"
proof -
  have "ns_ID ` {n \<in> set (connector_namespaces exampleStore).
                     ns_DeletedAt n = None \<and> (\<exists>e. ns_Expiration n = Some e \<and> e < 20)} = {''n1''}"
    unfolding image_selected by (simp add: exampleStore_def exampleNamespace_def)
  then show ?thesis
    using GetExpiredNamespaceIds_spec [OF ex_ids, of 20] ex_ids
    by (simp add: exampleStore_def exampleNamespace_def ConnectorNamespacePhaseDeleting_def)
qed

lemma emptyDeleting_iff:
  "emptyDeleting s n \<longleftrightarrow>
     ns_Phase n = ConnectorNamespacePhaseDeleting \<and> ns_DeletedAt n = None \<and>
     \<not> (\<exists>st \<in> set (connector_statuses s). cs_NamespaceId st = Some (ns_ID n) \<and> cs_DeletedAt st = None)"
  by (auto simp: emptyDeleting_def liveStatuses_def filter_empty_conv
      ConnectorNamespacePhaseDeleting_def ConnectorStatusPhaseDeleting_def)

lemma emptyDeleting_statuses:
  "connector_statuses s' = connector_statuses s \<Longrightarrow> emptyDeleting s' n = emptyDeleting s n"
  by (simp add: emptyDeleting_def liveStatuses_def)

lemma softDelete_selected:
  assumes "distinct (map ns_ID (connector_namespaces s))"
  shows "map (\<lambda>n. if ns_DeletedAt n = None \<and>
                     ns_ID n \<in> set (map ns_ID (filter (emptyDeleting s) (connector_namespaces s)))
                   then n\<lparr>ns_DeletedAt := Some now\<rparr> else n) (connector_namespaces s) =
         map (\<lambda>n. if emptyDeleting s n then n\<lparr>ns_DeletedAt := Some now\<rparr> else n)
             (connector_namespaces s)"
proof (rule map_cong [OF refl])
  fix n assume "n \<in> set (connector_namespaces s)"
  then have "ns_ID n \<in> set (map ns_ID (filter (emptyDeleting s) (connector_namespaces s)))
               \<longleftrightarrow> emptyDeleting s n"
    by (rule key_selected [OF assms])
  moreover have "emptyDeleting s n \<Longrightarrow> ns_DeletedAt n = None"
    by (simp add: emptyDeleting_def)
  ultimately show "(if ns_DeletedAt n = None \<and>
                     ns_ID n \<in> set (map ns_ID (filter (emptyDeleting s) (connector_namespaces s)))
                   then n\<lparr>ns_DeletedAt := Some now\<rparr> else n) =
         (if emptyDeleting s n then n\<lparr>ns_DeletedAt := Some now\<rparr> else n)"
    by auto
qed

lemma Reconcile_store:
  assumes "distinct (map ns_ID (connector_namespaces s))"
  shows "snd (ReconcileDeletingNamespaces now s) =
           s\<lparr>connector_namespaces :=
               map (\<lambda>n. if emptyDeleting s n then n\<lparr>ns_DeletedAt := Some now\<rparr> else n)
                   (connector_namespaces s)\<rparr>"
proof (cases "filter (emptyDeleting s) (connector_namespaces s) = []")
  case True
  then have "\<forall>n \<in> set (connector_namespaces s). \<not> emptyDeleting s n"
    by (simp add: filter_empty_conv)
  then have "map (\<lambda>n. if emptyDeleting s n then n\<lparr>ns_DeletedAt := Some now\<rparr> else n)
                   (connector_namespaces s) = connector_namespaces s"
    by (simp add: map_idI)
  then show ?thesis using True by (simp add: ReconcileDeletingNamespaces_def)
next
  case False
  then show ?thesis
    using softDelete_selected [OF assms, of now]
    by (simp add: ReconcileDeletingNamespaces_def Let_def)
qed

lemma Reconcile_count:
  "fst (ReconcileDeletingNamespaces now s) =
     (length (filter (emptyDeleting s) (connector_namespaces s)), [])"
  by (simp add: ReconcileDeletingNamespaces_def Let_def)

lemma swept_none_left:
  "filter (emptyDeleting s)
     (map (\<lambda>n. if emptyDeleting s n then n\<lparr>ns_DeletedAt := Some now\<rparr> else n) rows) = []"
  by (induction rows) (auto simp: emptyDeleting_def)

lemma Reconcile_nothing:
  "filter (emptyDeleting s) (connector_namespaces s) = [] \<Longrightarrow>
   ReconcileDeletingNamespaces now s = ((0, []), s)"
  by (simp add: ReconcileDeletingNamespaces_def)

lemma ex_sweepable:
  "filter (\<lambda>n. ns_Phase n = ConnectorNamespacePhaseDeleting \<and> ns_DeletedAt n = None \<and>
                            \<not> (\<exists>st \<in> set (connector_statuses exampleStore).
                                  cs_NamespaceId st = Some (ns_ID n) \<and> cs_DeletedAt st = None))
                     (connector_namespaces exampleStore) =
   [exampleNamespace ''n2'' None ''c2'' (Some ''u2'') None ''deleting'']"
  unfolding ex_rows ex_statuses
  by (simp add: exampleNamespace_def ConnectorNamespacePhaseDeleting_def)

text \<open>
  Claim C6. \<^verbatim>\<open>ReconcileDeletingNamespaces\<close> sets the soft-deletion marker of exactly
  the namespaces that are in phase "deleting", are not soft-deleted and have no
  connector status row that is not soft-deleted; it changes nothing else and returns
  their number with no error. A second sweep, run on the store the first one leaves,
  returns 0 and changes nothing.
\<close>

theorem ReconcileDeletingNamespaces_spec:
  assumes ids: "distinct (map ns_ID (connector_namespaces s))"
  shows "snd (ReconcileDeletingNamespaces now s) =
           s\<lparr>connector_namespaces :=
               map (\<lambda>n. if ns_Phase n = ConnectorNamespacePhaseDeleting \<and> ns_DeletedAt n = None \<and>
                            \<not> (\<exists>st \<in> set (connector_statuses s).
                                  cs_NamespaceId st = Some (ns_ID n) \<and> cs_DeletedAt st = None)
                         then n\<lparr>ns_DeletedAt := Some now\<rparr> else n)
                   (connector_namespaces s)\<rparr> \<and>
         fst (ReconcileDeletingNamespaces now s) =
           (length (filter (\<lambda>n. ns_Phase n = ConnectorNamespacePhaseDeleting \<and> ns_DeletedAt n = None \<and>
                            \<not> (\<exists>st \<in> set (connector_statuses s).
                                  cs_NamespaceId st = Some (ns_ID n) \<and> cs_DeletedAt st = None))
                     (connector_namespaces s)), []) \<and>
         ReconcileDeletingNamespaces later (snd (ReconcileDeletingNamespaces now s)) =
           ((0, []), snd (ReconcileDeletingNamespaces now s))"
proof -
  let ?s' = "snd (ReconcileDeletingNamespaces now s)"
  have st: "?s' = s\<lparr>connector_namespaces :=
               map (\<lambda>n. if emptyDeleting s n then n\<lparr>ns_DeletedAt := Some now\<rparr> else n)
                   (connector_namespaces s)\<rparr>"
    by (rule Reconcile_store [OF ids])
  have statuses: "connector_statuses ?s' = connector_statuses s"
    by (simp add: st)
  have same: "emptyDeleting ?s' = emptyDeleting s"
  proof (rule ext)
    fix n show "emptyDeleting ?s' n = emptyDeleting s n"
      using statuses by (rule emptyDeleting_statuses)
  qed
  have "filter (emptyDeleting ?s') (connector_namespaces ?s') = []"
    unfolding same by (simp add: st swept_none_left)
  then have again: "ReconcileDeletingNamespaces later ?s' = ((0, []), ?s')"
    by (rule Reconcile_nothing)
  show ?thesis
    unfolding emptyDeleting_iff [symmetric]
    by (intro conjI) (rule st, rule Reconcile_count, rule again)
qed

theorem ReconcileDeletingNamespaces_spec_witness:
  "distinct (map ns_ID (connector_namespaces exampleStore)) \<and>
   fst (ReconcileDeletingNamespaces 99 exampleStore) = (1, []) \<and>
   map ns_DeletedAt (connector_namespaces (snd (ReconcileDeletingNamespaces 99 exampleStore))) =
     [None, Some 99, Some 5] \<and>
   ReconcileDeletingNamespaces 100 (snd (ReconcileDeletingNamespaces 99 exampleStore)) =
     ((0, []), snd (ReconcileDeletingNamespaces 99 exampleStore))"
proof -
  note t = ReconcileDeletingNamespaces_spec [OF ex_ids, of 99 100]
  have a: "fst (ReconcileDeletingNamespaces 99 exampleStore) = (1, [])"
    using t [THEN conjunct2, THEN conjunct1] unfolding ex_sweepable by simp
  have "connector_namespaces (snd (ReconcileDeletingNamespaces 99 exampleStore)) =
      [exampleNamespace ''n1'' None ''c1'' (Some ''u1'') (Some 10) ''ready'',
       exampleNamespace ''n2'' (Some 99) ''c2'' (Some ''u2'') None ''deleting'',
       exampleNamespace ''n3'' (Some 5) ''c1'' (Some ''u3'') (Some 10) ''ready'']"
    unfolding t [THEN conjunct1] ex_rows ex_statuses
    by (simp add: exampleNamespace_def ConnectorNamespacePhaseDeleting_def)
  then have b: "map ns_DeletedAt (connector_namespaces (snd (ReconcileDeletingNamespaces 99 exampleStore))) =
     [None, Some 99, Some 5]"
    by (simp add: exampleNamespace_def)
  have c: "ReconcileDeletingNamespaces 100 (snd (ReconcileDeletingNamespaces 99 exampleStore)) =
     ((0, []), snd (ReconcileDeletingNamespaces 99 exampleStore))"
    by (rule t [THEN conjunct2, THEN conjunct2])
  show ?thesis using ex_ids a b c by (intro conjI)
qed

section \<open>Properties of the cascading deletion\<close>

lemma cascaded_connectors:
  "connectors s' = connectors s \<Longrightarrow> cascaded ids s' = cascaded ids s"
  by (simp add: cascaded_def)

lemma Delete_no_match:
  "matched query s = [] \<Longrightarrow>
   DeleteNamespaceAndConnectorDeployments cfg ctx s query = ((False, False, None), ctx, s)"
  by (simp add: DeleteNamespaceAndConnectorDeployments_def)

lemma Delete_no_connectors:
  assumes "matched query s \<noteq> []"
      and "cascaded (map ns_ID (matched query s)) s = []"
  shows "DeleteNamespaceAndConnectorDeployments cfg ctx s query =
           ((True, False, None), ctx,
            s\<lparr>connector_namespaces :=
                updateNamespacePhase (map ns_ID (matched query s)) ConnectorNamespacePhaseDeleting
                  (connector_namespaces s)\<rparr>)"
proof -
  have "cascaded (map ns_ID (matched query s))
          (s\<lparr>connector_namespaces :=
                updateNamespacePhase (map ns_ID (matched query s)) ConnectorNamespacePhaseDeleting
                  (connector_namespaces s)\<rparr>) = []"
    using assms(2) by (simp add: cascaded_def)
  then show ?thesis
    using assms(1) by (simp add: DeleteNamespaceAndConnectorDeployments_def Let_def)
qed

lemma Delete_cascade:
  assumes "matched query s \<noteq> []"
      and "cascaded (map ns_ID (matched query s)) s \<noteq> []"
  shows "DeleteNamespaceAndConnectorDeployments cfg ctx s query =
           ((True, True, None),
            AddPostCommitAction ctx
              (map deploymentsTopic (remdups (map ns_ClusterId (matched query s)))),
            s\<lparr>connector_namespaces :=
                updateNamespacePhase (map ns_ID (matched query s)) ConnectorNamespacePhaseDeleting
                  (connector_namespaces s),
              connectors :=
                map (\<lambda>c. if con_DeletedAt c = None \<and>
                             con_ID c \<in> set (cascaded (map ns_ID (matched query s)) s)
                          then c\<lparr>con_DesiredState :=
                                   (if ConnectorEnableUnassignedConnectors cfg
                                    then ConnectorUnassigned else ConnectorDeleted)\<rparr>
                          else c) (connectors s),
              connector_statuses :=
                map (\<lambda>st. if cs_DeletedAt st = None \<and>
                              cs_ID st \<in> set (cascaded (map ns_ID (matched query s)) s)
                           then st\<lparr>cs_Phase := ConnectorStatusPhaseDeleting\<rparr> else st)
                    (connector_statuses s),
              connector_deployment_statuses :=
                map (\<lambda>st. if cds_DeletedAt st = None \<and>
                              cds_ID st \<in> set (cascaded (map ns_ID (matched query s)) s)
                           then st\<lparr>cds_Phase := ConnectorStatusPhaseDeleting\<rparr> else st)
                    (connector_deployment_statuses s)\<rparr>)"
proof -
  let ?s1 = "s\<lparr>connector_namespaces :=
                updateNamespacePhase (map ns_ID (matched query s)) ConnectorNamespacePhaseDeleting
                  (connector_namespaces s)\<rparr>"
  have c: "cascaded (map ns_ID (matched query s)) ?s1 = cascaded (map ns_ID (matched query s)) s"
    by (simp add: cascaded_def)
  show ?thesis
    using assms by (simp add: DeleteNamespaceAndConnectorDeployments_def Let_def c)
qed

lemma matched_empty_iff:
  "matched query s = [] \<longleftrightarrow>
   \<not> (\<exists>n \<in> set (connector_namespaces s). ns_DeletedAt n = None \<and> query n)"
  by (auto simp: matched_def filter_empty_conv)

lemma in_matched_namespace:
  "(case con_NamespaceId c of None \<Rightarrow> False
    | Some i \<Rightarrow> i \<in> set (map ns_ID (matched query s))) \<longleftrightarrow>
   (\<exists>n \<in> set (connector_namespaces s).
      ns_DeletedAt n = None \<and> query n \<and> con_NamespaceId c = Some (ns_ID n))"
  by (cases "con_NamespaceId c") (auto simp: matched_def)

lemma cascaded_filter:
  "cascaded (map ns_ID (matched query s)) s =
     map con_ID (filter (\<lambda>c. con_DeletedAt c = None \<and>
                 con_DesiredState c \<noteq> ConnectorDeleted \<and>
                 (\<exists>n \<in> set (connector_namespaces s).
                    ns_DeletedAt n = None \<and> query n \<and> con_NamespaceId c = Some (ns_ID n)))
               (connectors s))"
  unfolding cascaded_def in_matched_namespace
  by (rule arg_cong [where f = "map con_ID"], rule filter_cong [OF refl]) blast

lemma cascaded_set:
  "set (cascaded (map ns_ID (matched query s)) s) =
     con_ID ` {c \<in> set (connectors s). con_DeletedAt c = None \<and>
                 con_DesiredState c \<noteq> ConnectorDeleted \<and>
                 (\<exists>n \<in> set (connector_namespaces s).
                    ns_DeletedAt n = None \<and> query n \<and> con_NamespaceId c = Some (ns_ID n))}"
  unfolding cascaded_filter by (rule image_selected [symmetric])

lemma cascaded_empty_iff:
  "cascaded (map ns_ID (matched query s)) s = [] \<longleftrightarrow>
   \<not> (\<exists>c \<in> set (connectors s). con_DeletedAt c = None \<and>
         con_DesiredState c \<noteq> ConnectorDeleted \<and>
         (\<exists>n \<in> set (connector_namespaces s).
            ns_DeletedAt n = None \<and> query n \<and> con_NamespaceId c = Some (ns_ID n)))"
proof -
  have "cascaded (map ns_ID (matched query s)) s = [] \<longleftrightarrow>
        set (cascaded (map ns_ID (matched query s)) s) = {}"
    by simp
  then show ?thesis unfolding cascaded_set by blast
qed

lemma Delete_result:
  "fst (DeleteNamespaceAndConnectorDeployments cfg ctx s query) =
     (if matched query s = [] then (False, False, None)
      else if cascaded (map ns_ID (matched query s)) s = [] then (True, False, None)
      else (True, True, None))"
proof (cases "matched query s = []")
  case True
  then show ?thesis by (simp add: Delete_no_match)
next
  case False
  show ?thesis
  proof (cases "cascaded (map ns_ID (matched query s)) s = []")
    case True
    show ?thesis by (simp add: Delete_no_connectors [OF False True] False True)
  next
    case c: False
    show ?thesis by (simp add: Delete_cascade [OF False c] False c)
  qed
qed

lemma Delete_cascading:
  "fst (DeleteNamespaceAndConnectorDeployments cfg ctx s query) = (True, True, None) \<Longrightarrow>
   matched query s \<noteq> [] \<and> cascaded (map ns_ID (matched query s)) s \<noteq> []"
  unfolding Delete_result by (simp split: if_splits)

lemma Delete_namespaces:
  "connector_namespaces (snd (snd (DeleteNamespaceAndConnectorDeployments cfg ctx s query))) =
     updateNamespacePhase (map ns_ID (matched query s)) ConnectorNamespacePhaseDeleting
       (connector_namespaces s)"
proof (cases "matched query s = []")
  case True
  then show ?thesis by (simp add: Delete_no_match updateNamespacePhase_def)
next
  case False
  show ?thesis
  proof (cases "cascaded (map ns_ID (matched query s)) s = []")
    case True
    show ?thesis by (simp add: Delete_no_connectors [OF False True])
  next
    case c: False
    show ?thesis by (simp add: Delete_cascade [OF False c])
  qed
qed

lemma matched_ids:
  "set (map ns_ID (matched query s)) =
     ns_ID ` {m \<in> set (connector_namespaces s). ns_DeletedAt m = None \<and> query m}"
  unfolding matched_def by (rule image_selected [symmetric])

lemma foldl_Notify: "foldl Notify bus topics = bus @ topics"
  by (induction topics arbitrary: bus) (simp_all add: Notify_def)

lemma Commit_after_add:
  "snd (Commit (AddPostCommitAction ctx f) bus) = snd (Commit ctx bus) @ f"
  by (simp add: Commit_def AddPostCommitAction_def foldl_Notify)

lemma inj_deploymentsTopic: "inj deploymentsTopic"
  by (rule injI) (simp add: deploymentsTopic_def)

lemma count_list_distinct:
  "distinct xs \<Longrightarrow> count_list xs x = (if x \<in> set xs then 1 else 0)"
  by (induction xs) auto

lemma ex_connectors:
  "connectors exampleStore =
     [\<lparr>con_ID = ''k1'', con_DeletedAt = None, con_NamespaceId = Some ''n1'',
        con_DesiredState = ''ready''\<rparr>,
      \<lparr>con_ID = ''k2'', con_DeletedAt = None, con_NamespaceId = Some ''n1'',
        con_DesiredState = ''deleted''\<rparr>]"
  by (simp add: exampleStore_def)

lemma ex_deployments:
  "connector_deployments exampleStore =
     [\<lparr>cd_ID = ''d1'', cd_ConnectorID = ''k1''\<rparr>,
      \<lparr>cd_ID = ''d2'', cd_ConnectorID = ''k1''\<rparr>]"
  by (simp add: exampleStore_def)

lemma ex_deployment_statuses:
  "connector_deployment_statuses exampleStore =
     [\<lparr>cds_ID = ''d1'', cds_DeletedAt = None, cds_Phase = ''ready''\<rparr>,
      \<lparr>cds_ID = ''d2'', cds_DeletedAt = None, cds_Phase = ''ready''\<rparr>]"
  by (simp add: exampleStore_def)

lemma ex_matched_none: "matched (\<lambda>n. ns_ID n = ''n7'') exampleStore = []"
  unfolding matched_def ex_rows by (simp add: exampleNamespace_def)

lemma ex_matched_deleted: "matched (\<lambda>n. ns_ID n = ''n3'') exampleStore = []"
  unfolding matched_def ex_rows by (simp add: exampleNamespace_def)

lemma ex_matched_n2:
  "matched (\<lambda>n. ns_ID n = ''n2'') exampleStore =
     [exampleNamespace ''n2'' None ''c2'' (Some ''u2'') None ''deleting'']"
  unfolding matched_def ex_rows by (simp add: exampleNamespace_def)

lemma ex_matched_n1:
  "matched (\<lambda>n. ns_ID n = ''n1'') exampleStore =
     [exampleNamespace ''n1'' None ''c1'' (Some ''u1'') (Some 10) ''ready'']"
  unfolding matched_def ex_rows by (simp add: exampleNamespace_def)

lemma ex_cascaded_n2: "cascaded [''n2''] exampleStore = []"
  unfolding cascaded_def ex_connectors by simp

lemma ex_cascaded_n1: "cascaded [''n1''] exampleStore = [''k1'']"
  unfolding cascaded_def ex_connectors by (simp add: ConnectorDeleted_def)

lemma ex_found:
  "fst (DeleteNamespaceAndConnectorDeployments cfg ctx exampleStore (\<lambda>n. ns_ID n = ''n1'')) =
     (True, True, None)"
  unfolding Delete_result ex_matched_n1
  by (simp add: exampleNamespace_def ex_cascaded_n1)

lemma ex_cascaded_set:
  "con_ID ` {c \<in> set (connectors exampleStore). con_DeletedAt c = None \<and>
                 con_DesiredState c \<noteq> ConnectorDeleted \<and>
                 (\<exists>n \<in> set (connector_namespaces exampleStore).
                    ns_DeletedAt n = None \<and> ns_ID n = ''n1'' \<and>
                    con_NamespaceId c = Some (ns_ID n))} = {''k1''}"
  unfolding cascaded_set [symmetric] ex_matched_n1
  by (simp add: exampleNamespace_def ex_cascaded_n1)

lemma cascade_rows:
  "connector_namespaces cascadeStore =
     [exampleNamespace ''n1'' None ''c1'' (Some ''u1'') (Some 10) ''ready'',
      exampleNamespace ''n2'' None ''c2'' (Some ''u2'') None ''deleting'',
      exampleNamespace ''n3'' (Some 5) ''c1'' (Some ''u3'') (Some 10) ''ready'',
      exampleNamespace ''n4'' None ''c1'' None None ''ready'']"
  by (simp add: cascadeStore_def ex_rows)

lemma cascade_connectors: "connectors cascadeStore = connectors exampleStore"
  by (simp add: cascadeStore_def)

lemma cascade_matched:
  "matched (\<lambda>n. ns_ClusterId n = ''c1'') cascadeStore =
     [exampleNamespace ''n1'' None ''c1'' (Some ''u1'') (Some 10) ''ready'',
      exampleNamespace ''n4'' None ''c1'' None None ''ready'']"
  unfolding matched_def cascade_rows by (simp add: exampleNamespace_def)

lemma cascade_cascaded: "cascaded [''n1'', ''n4''] cascadeStore = [''k1'']"
  unfolding cascaded_def cascade_connectors ex_connectors by (simp add: ConnectorDeleted_def)

lemma cascade_found:
  "fst (DeleteNamespaceAndConnectorDeployments cfg ctx cascadeStore (\<lambda>n. ns_ClusterId n = ''c1'')) =
     (True, True, None)"
  unfolding Delete_result cascade_matched
  by (simp add: exampleNamespace_def cascade_cascaded)

lemma cascade_clusters:
  "{''c1''} = ns_ClusterId ` {n \<in> set (connector_namespaces cascadeStore).
                               ns_DeletedAt n = None \<and> ns_ClusterId n = ''c1''}"
  unfolding image_selected cascade_rows by (simp add: exampleNamespace_def)

lemma single_topic:
  assumes "set topics = {t}" and "length topics = 1"
  shows "topics = [t]"
proof (cases topics)
  case Nil
  then show ?thesis using assms by simp
next
  case (Cons a rest)
  then show ?thesis using assms by auto
qed

text \<open>
  Claim C1. \<^verbatim>\<open>DeleteNamespaceAndConnectorDeployments\<close> returns \<open>(false, false, nil)\<close> when
  no namespace (no row that is not soft-deleted) matches the predicate. When at least
  one matches, it returns \<open>(true, false, nil)\<close> if no connector of a matched namespace
  has a desired state other than "deleted", and \<open>(true, true, nil)\<close> otherwise. In all
  three cases the namespace table afterwards is the old one with the phase of the
  matched namespaces set to "deleting"; in particular every matched namespace has that
  phase.
\<close>

theorem DeleteNamespaceAndConnectorDeployments_result:
  "fst (DeleteNamespaceAndConnectorDeployments cfg ctx s query) =
     (if \<not> (\<exists>n \<in> set (connector_namespaces s). ns_DeletedAt n = None \<and> query n)
      then (False, False, None)
      else if \<not> (\<exists>c \<in> set (connectors s). con_DeletedAt c = None \<and>
                    con_DesiredState c \<noteq> ConnectorDeleted \<and>
                    (\<exists>n \<in> set (connector_namespaces s).
                       ns_DeletedAt n = None \<and> query n \<and> con_NamespaceId c = Some (ns_ID n)))
      then (True, False, None)
      else (True, True, None)) \<and>
   connector_namespaces (snd (snd (DeleteNamespaceAndConnectorDeployments cfg ctx s query))) =
     map (\<lambda>n. if ns_DeletedAt n = None \<and>
                  ns_ID n \<in> ns_ID ` {m \<in> set (connector_namespaces s).
                                      ns_DeletedAt m = None \<and> query m}
               then n\<lparr>ns_Phase := ConnectorNamespacePhaseDeleting\<rparr> else n)
         (connector_namespaces s) \<and>
   (\<forall>i < length (connector_namespaces s).
      ns_DeletedAt (connector_namespaces s ! i) = None \<and> query (connector_namespaces s ! i) \<longrightarrow>
      ns_Phase (connector_namespaces
                  (snd (snd (DeleteNamespaceAndConnectorDeployments cfg ctx s query))) ! i) =
        ConnectorNamespacePhaseDeleting)"
proof (intro conjI)
  show "fst (DeleteNamespaceAndConnectorDeployments cfg ctx s query) =
     (if \<not> (\<exists>n \<in> set (connector_namespaces s). ns_DeletedAt n = None \<and> query n)
      then (False, False, None)
      else if \<not> (\<exists>c \<in> set (connectors s). con_DeletedAt c = None \<and>
                    con_DesiredState c \<noteq> ConnectorDeleted \<and>
                    (\<exists>n \<in> set (connector_namespaces s).
                       ns_DeletedAt n = None \<and> query n \<and> con_NamespaceId c = Some (ns_ID n)))
      then (True, False, None)
      else (True, True, None))"
    unfolding Delete_result matched_empty_iff cascaded_empty_iff by (rule refl)
  have rows: "connector_namespaces (snd (snd (DeleteNamespaceAndConnectorDeployments cfg ctx s query))) =
     map (\<lambda>n. if ns_DeletedAt n = None \<and>
                  ns_ID n \<in> ns_ID ` {m \<in> set (connector_namespaces s).
                                      ns_DeletedAt m = None \<and> query m}
               then n\<lparr>ns_Phase := ConnectorNamespacePhaseDeleting\<rparr> else n)
         (connector_namespaces s)"
    unfolding Delete_namespaces updateNamespacePhase_def matched_ids by (rule refl)
  show "connector_namespaces (snd (snd (DeleteNamespaceAndConnectorDeployments cfg ctx s query))) =
     map (\<lambda>n. if ns_DeletedAt n = None \<and>
                  ns_ID n \<in> ns_ID ` {m \<in> set (connector_namespaces s).
                                      ns_DeletedAt m = None \<and> query m}
               then n\<lparr>ns_Phase := ConnectorNamespacePhaseDeleting\<rparr> else n)
         (connector_namespaces s)"
    by (rule rows)
  show "\<forall>i < length (connector_namespaces s).
      ns_DeletedAt (connector_namespaces s ! i) = None \<and> query (connector_namespaces s ! i) \<longrightarrow>
      ns_Phase (connector_namespaces
                  (snd (snd (DeleteNamespaceAndConnectorDeployments cfg ctx s query))) ! i) =
        ConnectorNamespacePhaseDeleting"
  proof (intro allI impI)
    fix i assume i: "i < length (connector_namespaces s)"
      and m: "ns_DeletedAt (connector_namespaces s ! i) = None \<and> query (connector_namespaces s ! i)"
    let ?n = "connector_namespaces s ! i"
    have "?n \<in> set (connector_namespaces s)" using i by simp
    then have "ns_ID ?n \<in> ns_ID ` {m \<in> set (connector_namespaces s).
                                      ns_DeletedAt m = None \<and> query m}"
      using m by blast
    then show "ns_Phase (connector_namespaces
                  (snd (snd (DeleteNamespaceAndConnectorDeployments cfg ctx s query))) ! i) =
        ConnectorNamespacePhaseDeleting"
      unfolding rows using i m by simp
  qed
qed

theorem DeleteNamespaceAndConnectorDeployments_result_witness:
  "fst (DeleteNamespaceAndConnectorDeployments exampleConfig exampleContext exampleStore
          (\<lambda>n. ns_ID n = ''n7'')) = (False, False, None) \<and>
   fst (DeleteNamespaceAndConnectorDeployments exampleConfig exampleContext exampleStore
          (\<lambda>n. ns_ID n = ''n2'')) = (True, False, None) \<and>
   fst (DeleteNamespaceAndConnectorDeployments exampleConfig exampleContext exampleStore
          (\<lambda>n. ns_ID n = ''n1'')) = (True, True, None) \<and>
   map ns_Phase (connector_namespaces (snd (snd
     (DeleteNamespaceAndConnectorDeployments exampleConfig exampleContext exampleStore
          (\<lambda>n. ns_ID n = ''n1''))))) = [''deleting'', ''deleting'', ''ready'']"
proof -
  have a: "fst (DeleteNamespaceAndConnectorDeployments exampleConfig exampleContext exampleStore
          (\<lambda>n. ns_ID n = ''n7'')) = (False, False, None)"
    using DeleteNamespaceAndConnectorDeployments_result
      [of exampleConfig exampleContext exampleStore "\<lambda>n. ns_ID n = ''n7''", THEN conjunct1]
    unfolding ex_rows ex_connectors by (simp add: exampleNamespace_def)
  have b: "fst (DeleteNamespaceAndConnectorDeployments exampleConfig exampleContext exampleStore
          (\<lambda>n. ns_ID n = ''n2'')) = (True, False, None)"
    using DeleteNamespaceAndConnectorDeployments_result
      [of exampleConfig exampleContext exampleStore "\<lambda>n. ns_ID n = ''n2''", THEN conjunct1]
    unfolding ex_rows ex_connectors by (simp add: exampleNamespace_def)
  have c: "fst (DeleteNamespaceAndConnectorDeployments exampleConfig exampleContext exampleStore
          (\<lambda>n. ns_ID n = ''n1'')) = (True, True, None)"
    using DeleteNamespaceAndConnectorDeployments_result
      [of exampleConfig exampleContext exampleStore "\<lambda>n. ns_ID n = ''n1''", THEN conjunct1]
    unfolding ex_rows ex_connectors by (simp add: exampleNamespace_def ConnectorDeleted_def)
  have "connector_namespaces (snd (snd
     (DeleteNamespaceAndConnectorDeployments exampleConfig exampleContext exampleStore
          (\<lambda>n. ns_ID n = ''n1'')))) =
      [exampleNamespace ''n1'' None ''c1'' (Some ''u1'') (Some 10) ''deleting'',
       exampleNamespace ''n2'' None ''c2'' (Some ''u2'') None ''deleting'',
       exampleNamespace ''n3'' (Some 5) ''c1'' (Some ''u3'') (Some 10) ''ready'']"
    using DeleteNamespaceAndConnectorDeployments_result
      [of exampleConfig exampleContext exampleStore "\<lambda>n. ns_ID n = ''n1''",
       THEN conjunct2, THEN conjunct1]
    unfolding image_selected ex_rows
    by (simp add: exampleNamespace_def ConnectorNamespacePhaseDeleting_def)
  then have d: "map ns_Phase (connector_namespaces (snd (snd
     (DeleteNamespaceAndConnectorDeployments exampleConfig exampleContext exampleStore
          (\<lambda>n. ns_ID n = ''n1''))))) = [''deleting'', ''deleting'', ''ready'']"
    by (simp add: exampleNamespace_def)
  show ?thesis using a b c d by (intro conjI)
qed

text \<open>
  What the cascade branch writes. When the cascading deletion finds a connector of a
  matched namespace whose desired state is not "deleted" (\<open>ids\<close> are the keys of these
  connectors), it sets the desired state of each of them to "deleted", or to
  "unassigned" when the configuration has \<^verbatim>\<open>ConnectorEnableUnassignedConnectors\<close>: a
  function of the configuration alone. It sets to "deleting" the phase of the
  connector-status rows that have one of these keys, and of the deployment-status rows
  whose own key is one of these keys.
\<close>

lemma Delete_cascade_effects:
  assumes found: "fst (DeleteNamespaceAndConnectorDeployments cfg ctx s query) = (True, True, None)"
      and ids: "ids = con_ID ` {c \<in> set (connectors s). con_DeletedAt c = None \<and>
                 con_DesiredState c \<noteq> ConnectorDeleted \<and>
                 (\<exists>n \<in> set (connector_namespaces s).
                    ns_DeletedAt n = None \<and> query n \<and> con_NamespaceId c = Some (ns_ID n))}"
  shows "connectors (snd (snd (DeleteNamespaceAndConnectorDeployments cfg ctx s query))) =
           map (\<lambda>c. if con_DeletedAt c = None \<and> con_ID c \<in> ids
                     then c\<lparr>con_DesiredState :=
                              (if ConnectorEnableUnassignedConnectors cfg
                               then ConnectorUnassigned else ConnectorDeleted)\<rparr>
                     else c) (connectors s) \<and>
         connector_statuses (snd (snd (DeleteNamespaceAndConnectorDeployments cfg ctx s query))) =
           map (\<lambda>st. if cs_DeletedAt st = None \<and> cs_ID st \<in> ids
                      then st\<lparr>cs_Phase := ConnectorStatusPhaseDeleting\<rparr> else st)
               (connector_statuses s) \<and>
         connector_deployment_statuses
             (snd (snd (DeleteNamespaceAndConnectorDeployments cfg ctx s query))) =
           map (\<lambda>st. if cds_DeletedAt st = None \<and> cds_ID st \<in> ids
                      then st\<lparr>cds_Phase := ConnectorStatusPhaseDeleting\<rparr> else st)
               (connector_deployment_statuses s)"
proof -
  have m: "matched query s \<noteq> []" and c: "cascaded (map ns_ID (matched query s)) s \<noteq> []"
    using Delete_cascading [OF found] by simp_all
  have i: "ids = set (cascaded (map ns_ID (matched query s)) s)"
    unfolding ids cascaded_set by (rule refl)
  show ?thesis
    unfolding i by (simp add: Delete_cascade [OF m c])
qed

text \<open>
  Deployment-status rows are selected by the keys of the connectors, not by the keys of
  their deployments: where no deployment-status row has the key of a connector, the
  statement that is to "mark all deployment statuses" changes no row.
\<close>

lemma Delete_deployment_statuses_untouched:
  assumes found: "fst (DeleteNamespaceAndConnectorDeployments cfg ctx s query) = (True, True, None)"
      and keys: "cds_ID ` set (connector_deployment_statuses s) \<inter> con_ID ` set (connectors s) = {}"
  shows "connector_deployment_statuses
           (snd (snd (DeleteNamespaceAndConnectorDeployments cfg ctx s query))) =
         connector_deployment_statuses s"
proof -
  let ?ids = "con_ID ` {c \<in> set (connectors s). con_DeletedAt c = None \<and>
                 con_DesiredState c \<noteq> ConnectorDeleted \<and>
                 (\<exists>n \<in> set (connector_namespaces s).
                    ns_DeletedAt n = None \<and> query n \<and> con_NamespaceId c = Some (ns_ID n))}"
  have sub: "?ids \<subseteq> con_ID ` set (connectors s)"
    by blast
  have "map (\<lambda>st. if cds_DeletedAt st = None \<and> cds_ID st \<in> ?ids
                   then st\<lparr>cds_Phase := ConnectorStatusPhaseDeleting\<rparr> else st)
            (connector_deployment_statuses s) = connector_deployment_statuses s"
  proof (rule map_idI)
    fix st assume "st \<in> set (connector_deployment_statuses s)"
    then have "cds_ID st \<notin> con_ID ` set (connectors s)"
      using keys by blast
    then have "cds_ID st \<notin> ?ids"
      using sub by blast
    then show "(if cds_DeletedAt st = None \<and> cds_ID st \<in> ?ids
                then st\<lparr>cds_Phase := ConnectorStatusPhaseDeleting\<rparr> else st) = st"
      by simp
  qed
  then show ?thesis
    using Delete_cascade_effects [OF found refl, THEN conjunct2, THEN conjunct2] by simp
qed

lemma ex_associated:
  "deploymentStatuses exampleStore ''k1'' =
     [\<lparr>cds_ID = ''d1'', cds_DeletedAt = None, cds_Phase = ''ready''\<rparr>,
      \<lparr>cds_ID = ''d2'', cds_DeletedAt = None, cds_Phase = ''ready''\<rparr>]"
  unfolding deploymentStatuses_def ex_deployments ex_deployment_statuses by simp

lemma ex_keys:
  "cds_ID ` set (connector_deployment_statuses exampleStore) \<inter>
   con_ID ` set (connectors exampleStore) = {}"
  unfolding ex_deployment_statuses ex_connectors by simp

lemma Delete_deployments:
  "connector_deployments (snd (snd (DeleteNamespaceAndConnectorDeployments cfg ctx s query))) =
     connector_deployments s"
proof (cases "matched query s = []")
  case True
  then show ?thesis by (simp add: Delete_no_match)
next
  case False
  show ?thesis
  proof (cases "cascaded (map ns_ID (matched query s)) s = []")
    case True
    show ?thesis by (simp add: Delete_no_connectors [OF False True])
  next
    case c: False
    show ?thesis by (simp add: Delete_cascade [OF False c])
  qed
qed

text \<open>
  Claim C2 says that the cascading deletion sets to "deleting" the phase of every
  deployment status associated with a connector it deletes or unassigns. In the example
  store the predicate "key \<open>n1\<close>" finds connector \<open>k1\<close>, whose desired state is
  "ready" and which has the deployments \<open>d1\<close> and \<open>d2\<close>. The call returns
  \<open>(true, true, nil)\<close>, sets the desired state of \<open>k1\<close> to "deleted" ("unassigned"
  with the switch of the configuration) and the phase of its connector status to
  "deleting", as the claim says; the statuses of \<open>d1\<close> and \<open>d2\<close> keep the phase
  "ready".
\<close>

theorem DeleteNamespaceAndConnectorDeployments_deployment_statuses:
  "fst (DeleteNamespaceAndConnectorDeployments exampleConfig exampleContext exampleStore
          (\<lambda>n. ns_ID n = ''n1'')) = (True, True, None) \<and>
   map con_DesiredState (connectors exampleStore) = [''ready'', ''deleted''] \<and>
   map con_DesiredState (connectors (snd (snd
     (DeleteNamespaceAndConnectorDeployments exampleConfig exampleContext exampleStore
          (\<lambda>n. ns_ID n = ''n1''))))) = [''deleted'', ''deleted''] \<and>
   map con_DesiredState (connectors (snd (snd
     (DeleteNamespaceAndConnectorDeployments
          (exampleConfig\<lparr>ConnectorEnableUnassignedConnectors := True\<rparr>) exampleContext exampleStore
          (\<lambda>n. ns_ID n = ''n1''))))) = [''unassigned'', ''deleted''] \<and>
   map cs_Phase (connector_statuses (snd (snd
     (DeleteNamespaceAndConnectorDeployments exampleConfig exampleContext exampleStore
          (\<lambda>n. ns_ID n = ''n1''))))) = [''deleting'', ''deleting''] \<and>
   map cds_ID (deploymentStatuses exampleStore ''k1'') = [''d1'', ''d2''] \<and>
   map cds_Phase (deploymentStatuses (snd (snd
     (DeleteNamespaceAndConnectorDeployments exampleConfig exampleContext exampleStore
          (\<lambda>n. ns_ID n = ''n1'')))) ''k1'') = [''ready'', ''ready'']"
proof -
  let ?s' = "snd (snd
     (DeleteNamespaceAndConnectorDeployments exampleConfig exampleContext exampleStore
          (\<lambda>n. ns_ID n = ''n1'')))"
  note t = Delete_cascade_effects
    [OF ex_found refl, of exampleConfig exampleContext, unfolded ex_cascaded_set]
  note u = Delete_cascade_effects
    [OF ex_found refl, of "exampleConfig\<lparr>ConnectorEnableUnassignedConnectors := True\<rparr>"
       exampleContext, unfolded ex_cascaded_set]
  have z: "map con_DesiredState (connectors exampleStore) = [''ready'', ''deleted'']"
    unfolding ex_connectors by simp
  have a: "map con_DesiredState (connectors ?s') = [''deleted'', ''deleted'']"
    unfolding t [THEN conjunct1] ex_connectors
    by (simp add: exampleConfig_def ConnectorDeleted_def)
  have b: "map con_DesiredState (connectors (snd (snd
     (DeleteNamespaceAndConnectorDeployments
          (exampleConfig\<lparr>ConnectorEnableUnassignedConnectors := True\<rparr>) exampleContext exampleStore
          (\<lambda>n. ns_ID n = ''n1''))))) = [''unassigned'', ''deleted'']"
    unfolding u [THEN conjunct1] ex_connectors
    by (simp add: ConnectorUnassigned_def)
  have c: "map cs_Phase (connector_statuses ?s') = [''deleting'', ''deleting'']"
    unfolding t [THEN conjunct2, THEN conjunct1] ex_statuses
    by (simp add: ConnectorStatusPhaseDeleting_def)
  have d: "map cds_ID (deploymentStatuses exampleStore ''k1'') = [''d1'', ''d2'']"
    unfolding ex_associated by simp
  have same: "connector_deployment_statuses ?s' = connector_deployment_statuses exampleStore"
    by (rule Delete_deployment_statuses_untouched [OF ex_found ex_keys])
  have "deploymentStatuses ?s' ''k1'' = deploymentStatuses exampleStore ''k1''"
    unfolding deploymentStatuses_def same Delete_deployments by (rule refl)
  then have e: "map cds_Phase (deploymentStatuses ?s' ''k1'') = [''ready'', ''ready'']"
    unfolding ex_associated by simp
  show ?thesis using ex_found z a b c d e by (intro conjI)
qed

text \<open>
  Claim C3. When the cascading deletion finds such a connector, it schedules one
  post-commit action on the transaction of the context. The action sends one
  cluster-deployment topic for each cluster of a matched namespace, each exactly once,
  however many namespaces or connectors the cluster has. Nothing is sent by the call
  itself: committing the transaction sends the topics, after those of the actions
  scheduled before; rolling it back sends nothing.
\<close>

theorem DeleteNamespaceAndConnectorDeployments_notifies:
  assumes found: "fst (DeleteNamespaceAndConnectorDeployments cfg ctx s query) = (True, True, None)"
      and clusters: "clusters = ns_ClusterId ` {n \<in> set (connector_namespaces s).
                                   ns_DeletedAt n = None \<and> query n}"
  shows "\<exists>topics.
           fst (snd (DeleteNamespaceAndConnectorDeployments cfg ctx s query)) =
             ctx\<lparr>postCommitActions := postCommitActions ctx @ [topics]\<rparr> \<and>
           set topics = deploymentsTopic ` clusters \<and>
           (\<forall>cid. count_list topics (deploymentsTopic cid) = (if cid \<in> clusters then 1 else 0)) \<and>
           length topics = card clusters \<and>
           snd (Commit (fst (snd (DeleteNamespaceAndConnectorDeployments cfg ctx s query))) bus) =
             snd (Commit ctx bus) @ topics \<and>
           snd (Rollback (fst (snd (DeleteNamespaceAndConnectorDeployments cfg ctx s query))) bus) =
             bus"
proof -
  let ?cids = "remdups (map ns_ClusterId (matched query s))"
  let ?topics = "map deploymentsTopic ?cids"
  have m: "matched query s \<noteq> []" and c: "cascaded (map ns_ID (matched query s)) s \<noteq> []"
    using Delete_cascading [OF found] by simp_all
  have ctx': "fst (snd (DeleteNamespaceAndConnectorDeployments cfg ctx s query)) =
                AddPostCommitAction ctx ?topics"
    by (simp add: Delete_cascade [OF m c])
  have cl: "set ?cids = clusters"
    unfolding clusters matched_def by auto
  have d: "distinct ?topics"
    by (simp add: distinct_map inj_on_subset [OF inj_deploymentsTopic])
  have a: "fst (snd (DeleteNamespaceAndConnectorDeployments cfg ctx s query)) =
             ctx\<lparr>postCommitActions := postCommitActions ctx @ [?topics]\<rparr>"
    unfolding ctx' by (simp add: AddPostCommitAction_def)
  have b: "set ?topics = deploymentsTopic ` clusters"
    using cl by simp
  have e: "\<forall>cid. count_list ?topics (deploymentsTopic cid) = (if cid \<in> clusters then 1 else 0)"
  proof
    fix cid
    have "deploymentsTopic cid \<in> deploymentsTopic ` clusters \<longleftrightarrow> cid \<in> clusters"
      using inj_deploymentsTopic by (auto dest: injD)
    then show "count_list ?topics (deploymentsTopic cid) = (if cid \<in> clusters then 1 else 0)"
      unfolding count_list_distinct [OF d] b by simp
  qed
  have "length ?topics = card (set ?cids)"
    by (simp add: length_remdups_card_conv)
  then have f: "length ?topics = card clusters"
    unfolding cl .
  have g: "snd (Commit (fst (snd (DeleteNamespaceAndConnectorDeployments cfg ctx s query))) bus) =
             snd (Commit ctx bus) @ ?topics"
    unfolding ctx' by (rule Commit_after_add)
  have h: "snd (Rollback (fst (snd (DeleteNamespaceAndConnectorDeployments cfg ctx s query))) bus) = bus"
    by (simp add: Rollback_def)
  show ?thesis
    using a b e f g h by blast
qed

theorem DeleteNamespaceAndConnectorDeployments_notifies_witness:
  "fst (DeleteNamespaceAndConnectorDeployments exampleConfig exampleContext cascadeStore
          (\<lambda>n. ns_ClusterId n = ''c1'')) = (True, True, None) \<and>
   length (matched (\<lambda>n. ns_ClusterId n = ''c1'') cascadeStore) = 2 \<and>
   postCommitActions (fst (snd
     (DeleteNamespaceAndConnectorDeployments exampleConfig exampleContext cascadeStore
          (\<lambda>n. ns_ClusterId n = ''c1'')))) = [[''/kafka_connector_clusters/c1/deployments'']] \<and>
   snd (Commit (fst (snd
     (DeleteNamespaceAndConnectorDeployments exampleConfig exampleContext cascadeStore
          (\<lambda>n. ns_ClusterId n = ''c1'')))) []) = [''/kafka_connector_clusters/c1/deployments''] \<and>
   snd (Rollback (fst (snd
     (DeleteNamespaceAndConnectorDeployments exampleConfig exampleContext cascadeStore
          (\<lambda>n. ns_ClusterId n = ''c1'')))) []) = []"
proof -
  let ?ctx' = "fst (snd
     (DeleteNamespaceAndConnectorDeployments exampleConfig exampleContext cascadeStore
          (\<lambda>n. ns_ClusterId n = ''c1'')))"
  obtain topics where
        sched: "?ctx' = exampleContext\<lparr>postCommitActions :=
                         postCommitActions exampleContext @ [topics]\<rparr>"
    and tset: "set topics = deploymentsTopic ` {''c1''}"
    and len: "length topics = card {''c1''}"
    and commit: "snd (Commit ?ctx' []) = snd (Commit exampleContext []) @ topics"
    and rollback: "snd (Rollback ?ctx' []) = []"
    using DeleteNamespaceAndConnectorDeployments_notifies
      [OF cascade_found cascade_clusters, of exampleConfig exampleContext "[]"]
    by blast
  have topics: "topics = [''/kafka_connector_clusters/c1/deployments'']"
    using single_topic [of topics "deploymentsTopic ''c1''"] tset len
    by (simp add: deploymentsTopic_def)
  have a: "postCommitActions ?ctx' = [[''/kafka_connector_clusters/c1/deployments'']]"
    unfolding sched topics by (simp add: exampleContext_def)
  have b: "snd (Commit ?ctx' []) = [''/kafka_connector_clusters/c1/deployments'']"
    unfolding commit topics by (simp add: Commit_def exampleContext_def)
  have c: "length (matched (\<lambda>n. ns_ClusterId n = ''c1'') cascadeStore) = 2"
    unfolding cascade_matched by simp
  show ?thesis using cascade_found c a b rollback by (intro conjI)
qed

end
